theory Spec2Isabelle
  imports Main
begin

section \<open>The job table of tsh\<close>

text \<open>
  A shallow embedding of \<^verbatim>\<open>src/tsh.c\<close>. The C globals \<^verbatim>\<open>job_list\<close>, \<^verbatim>\<open>nextjid\<close> and
  \<^verbatim>\<open>verbose\<close> are fields of the record \<open>shell\<close>, which every function that touches them
  takes and returns. Two more fields record what the process does to the outside: \<open>out\<close>
  is the sequence of strings handed to \<^verbatim>\<open>printf\<close>/\<^verbatim>\<open>write\<close> (stderr is an alias of stdout
  after \<^verbatim>\<open>dup2(1, 2)\<close> in \<^verbatim>\<open>main\<close>), and \<open>sys\<close> is the sequence of the successful \<^verbatim>\<open>fork\<close> calls, with
  the pid of the child, and of the \<^verbatim>\<open>kill\<close> calls, with their arguments.

  \<^verbatim>\<open>pid_t\<close> and \<^verbatim>\<open>int\<close> are modelled as \<open>int\<close>. Signed overflow is undefined in C, so the
  model is exact as long as every value stays inside 32 bits; the only arithmetic on
  these values is \<^verbatim>\<open>nextjid++\<close>, \<^verbatim>\<open>maxjid(...)+1\<close> and the negation of a pid.
\<close>

datatype jstate = UNDEF | FG | BG | ST

record job_t =
  pid :: int
  jid :: int
  state :: jstate
  cmdline :: string

datatype signal = SIGINT | SIGTSTP | SIGCONT | SIGQUIT | SIGCHLD

datatype syscall = Sys_fork int | Sys_kill int signal

record shell =
  job_list :: "job_t list"
  nextjid :: int
  verbose :: bool
  out :: "string list"
  sys :: "syscall list"

definition MAXJOBS :: nat where
  "MAXJOBS = 16"

definition MAXARGS :: nat where
  "MAXARGS = 128"

subsection \<open>printf conversions\<close>

fun digits :: "nat \<Rightarrow> string" where
  "digits n =
     (if n < 10 then [''0123456789'' ! n]
      else digits (n div 10) @ [''0123456789'' ! (n mod 10)])"

declare digits.simps [simp del]

definition fmt_d :: "int \<Rightarrow> string" where
  "fmt_d i = (if i < 0 then CHR ''-'' # digits (nat (- i)) else digits (nat i))"

subsection \<open>Helper routines that manipulate the job list\<close>

definition clearjob :: "job_t \<Rightarrow> job_t" where
  "clearjob job = job\<lparr>pid := 0, jid := 0, state := UNDEF, cmdline := []\<rparr>"

definition initjobs :: "job_t list \<Rightarrow> job_t list" where
  "initjobs jl = map clearjob jl"

fun maxjid_loop :: "int \<Rightarrow> job_t list \<Rightarrow> int" where
  "maxjid_loop mx [] = mx"
| "maxjid_loop mx (j # js) = maxjid_loop (if jid j > mx then jid j else mx) js"

definition maxjid :: "job_t list \<Rightarrow> int" where
  "maxjid jl = maxjid_loop 0 jl"

text \<open>
  The loops of \<^verbatim>\<open>addjob\<close>, \<^verbatim>\<open>deletejob\<close> and \<^verbatim>\<open>stopjob\<close> walk the slots in index order and
  act on the first slot that matches; \<open>None\<close> is the loop running off the end.
\<close>

fun addjob_loop :: "job_t list \<Rightarrow> job_t \<Rightarrow> job_t list option" where
  "addjob_loop [] new = None"
| "addjob_loop (j # js) new =
     (if pid j = 0 then Some (new # js)
      else (case addjob_loop js new of None \<Rightarrow> None | Some js' \<Rightarrow> Some (j # js')))"

definition addjob :: "shell \<Rightarrow> int \<Rightarrow> jstate \<Rightarrow> string \<Rightarrow> int \<times> shell" where
  "addjob s p st cl =
     (if p < 1 then (0, s)
      else
        (case addjob_loop (job_list s) \<lparr>pid = p, jid = nextjid s, state = st, cmdline = cl\<rparr> of
           Some jl \<Rightarrow>
             (1, s\<lparr>job_list := jl,
                   nextjid := (if nextjid s + 1 > int MAXJOBS then 1 else nextjid s + 1),
                   out := out s @
                     (if verbose s
                      then [''Added job ['' @ fmt_d (nextjid s) @ ''] '' @ fmt_d p @ '' '' @ cl @
                            ''\<newline>'']
                      else [])\<rparr>)
         | None \<Rightarrow> (0, s\<lparr>out := out s @ [''Tried to create too many jobs\<newline>'']\<rparr>)))"

fun deletejob_loop :: "job_t list \<Rightarrow> int \<Rightarrow> job_t list option" where
  "deletejob_loop [] p = None"
| "deletejob_loop (j # js) p =
     (if pid j = p then Some (clearjob j # js)
      else (case deletejob_loop js p of None \<Rightarrow> None | Some js' \<Rightarrow> Some (j # js')))"

definition deletejob :: "shell \<Rightarrow> int \<Rightarrow> int \<times> shell" where
  "deletejob s p =
     (if p < 1 then (0, s)
      else
        (case deletejob_loop (job_list s) p of
           Some jl \<Rightarrow> (1, s\<lparr>job_list := jl, nextjid := maxjid jl + 1\<rparr>)
         | None \<Rightarrow> (0, s)))"

fun stopjob_loop :: "job_t list \<Rightarrow> int \<Rightarrow> job_t list option" where
  "stopjob_loop [] p = None"
| "stopjob_loop (j # js) p =
     (if pid j = p then Some (j\<lparr>state := ST\<rparr> # js)
      else (case stopjob_loop js p of None \<Rightarrow> None | Some js' \<Rightarrow> Some (j # js')))"

definition stopjob :: "shell \<Rightarrow> int \<Rightarrow> int \<times> shell" where
  "stopjob s p =
     (if p < 1 then (0, s)
      else
        (case stopjob_loop (job_list s) p of
           Some jl \<Rightarrow> (1, s\<lparr>job_list := jl\<rparr>)
         | None \<Rightarrow> (0, s)))"

fun fgpid :: "job_t list \<Rightarrow> int" where
  "fgpid [] = 0"
| "fgpid (j # js) = (if state j = FG then pid j else fgpid js)"

text \<open>
  \<^verbatim>\<open>getjobpid\<close> and \<^verbatim>\<open>getjobjid\<close> return a pointer into the array, which the callers write
  through; the model returns the slot index, \<open>None\<close> for \<^verbatim>\<open>NULL\<close>.
\<close>

fun find_pid :: "job_t list \<Rightarrow> int \<Rightarrow> nat option" where
  "find_pid [] p = None"
| "find_pid (j # js) p =
     (if pid j = p then Some 0
      else (case find_pid js p of None \<Rightarrow> None | Some i \<Rightarrow> Some (Suc i)))"

definition getjobpid :: "job_t list \<Rightarrow> int \<Rightarrow> nat option" where
  "getjobpid jl p = (if p < 1 then None else find_pid jl p)"

fun find_jid :: "job_t list \<Rightarrow> int \<Rightarrow> nat option" where
  "find_jid [] i = None"
| "find_jid (j # js) i =
     (if jid j = i then Some 0
      else (case find_jid js i of None \<Rightarrow> None | Some k \<Rightarrow> Some (Suc k)))"

definition getjobjid :: "job_t list \<Rightarrow> int \<Rightarrow> nat option" where
  "getjobjid jl i = (if i < 1 then None else find_jid jl i)"

fun pid2jid_loop :: "job_t list \<Rightarrow> int \<Rightarrow> int" where
  "pid2jid_loop [] p = 0"
| "pid2jid_loop (j # js) p = (if pid j = p then jid j else pid2jid_loop js p)"

definition pid2jid :: "job_t list \<Rightarrow> int \<Rightarrow> int" where
  "pid2jid jl p = (if p < 1 then 0 else pid2jid_loop jl p)"

fun listjobs_lines :: "nat \<Rightarrow> job_t list \<Rightarrow> string list" where
  "listjobs_lines i [] = []"
| "listjobs_lines i (j # js) =
     (if pid j \<noteq> 0
      then [''['' @ fmt_d (jid j) @ ''] ('' @ fmt_d (pid j) @ '') '',
            (case state j of
               BG \<Rightarrow> ''Running    ''
             | FG \<Rightarrow> ''Foreground ''
             | ST \<Rightarrow> ''Stopped    ''
             | UNDEF \<Rightarrow> ''listjobs: Internal error: job['' @ fmt_d (int i) @ ''].state=0 ''),
            cmdline j @ ''\<newline>'']
      else []) @ listjobs_lines (Suc i) js"

text \<open>The table as \<^verbatim>\<open>main\<close> leaves it before the first command line is read.\<close>

definition empty_job :: job_t where
  "empty_job = \<lparr>pid = 0, jid = 0, state = UNDEF, cmdline = []\<rparr>"

definition init_shell :: shell where
  "init_shell =
     \<lparr>job_list = initjobs (replicate MAXJOBS empty_job), nextjid = 1, verbose = False,
      out = [], sys = []\<rparr>"

section \<open>The tokenizer\<close>

datatype builtins_t = BUILTIN_NONE | BUILTIN_QUIT | BUILTIN_JOBS | BUILTIN_BG | BUILTIN_FG

text \<open>
  \<^verbatim>\<open>argc\<close> is the length of \<open>argv\<close> (the C code keeps \<^verbatim>\<open>argv[argc] = NULL\<close>); a \<^verbatim>\<open>NULL\<close>
  \<^verbatim>\<open>infile\<close>/\<^verbatim>\<open>outfile\<close> is \<open>None\<close>.
\<close>

record cmdline_tokens =
  argv :: "string list"
  infile :: "string option"
  outfile :: "string option"
  builtins :: builtins_t

definition argc :: "cmdline_tokens \<Rightarrow> nat" where
  "argc tok = length (argv tok)"

definition ST_NORMAL :: int where "ST_NORMAL = 0"
definition ST_INFILE :: int where "ST_INFILE = 1"
definition ST_OUTFILE :: int where "ST_OUTFILE = 2"

definition delims :: string where
  "delims = [CHR '' '', CHR 0x09, CHR 0x0D, CHR 0x0A]"

definition is_delim :: "char \<Rightarrow> bool" where
  "is_delim c = (c \<in> set delims)"

definition is_quote :: "char \<Rightarrow> bool" where
  "is_quote c = (c = CHR 0x27 \<or> c = CHR 0x22)"

text \<open>
  One token, starting at the first character of a non-empty \<open>buf\<close>: the token and what
  follows its terminator (\<^verbatim>\<open>buf = next + 1\<close>). \<open>None\<close> is \<^verbatim>\<open>strchr\<close> returning \<^verbatim>\<open>NULL\<close>, the
  closing quote missing.
\<close>

definition next_token :: "string \<Rightarrow> (string \<times> string) option" where
  "next_token buf =
     (if is_quote (hd buf)
      then (if hd buf \<in> set (tl buf)
            then Some (takeWhile (\<lambda>c. c \<noteq> hd buf) (tl buf),
                       drop 1 (dropWhile (\<lambda>c. c \<noteq> hd buf) (tl buf)))
            else None)
      else Some (takeWhile (\<lambda>c. \<not> is_delim c) buf,
                 drop 1 (dropWhile (\<lambda>c. \<not> is_delim c) buf)))"

text \<open>
  The \<^verbatim>\<open>while (buf < endbuf)\<close> loop of \<^verbatim>\<open>parseline\<close>. \<open>buf\<close> is the text from the C pointer
  \<^verbatim>\<open>buf\<close> to \<^verbatim>\<open>endbuf\<close>; \<open>ps\<close> is \<^verbatim>\<open>parsing_state\<close>. \<open>Inl\<close> carries the message printed before
  \<^verbatim>\<open>return -1\<close>; \<open>Inr\<close> is the loop left by its condition or by a \<^verbatim>\<open>break\<close>.
\<close>

function parse_loop :: "string \<Rightarrow> int \<Rightarrow> cmdline_tokens \<Rightarrow> string + (int \<times> cmdline_tokens)" where
  "parse_loop buf ps tok =
     (if dropWhile is_delim buf = [] then Inr (ps, tok)
      else if hd (dropWhile is_delim buf) = CHR ''<'' then
        (if infile tok \<noteq> None then Inl ''Error: Ambiguous I/O redirection\<newline>''
         else parse_loop (tl (dropWhile is_delim buf)) (or ps ST_INFILE) tok)
      else if hd (dropWhile is_delim buf) = CHR ''>'' then
        (if outfile tok \<noteq> None then Inl ''Error: Ambiguous I/O redirection\<newline>''
         else parse_loop (tl (dropWhile is_delim buf)) (or ps ST_OUTFILE) tok)
      else
        (case next_token (dropWhile is_delim buf) of
           None \<Rightarrow> Inl (''Error: unmatched '' @ [hd (dropWhile is_delim buf)] @ ''.\<newline>'')
         | Some (t, rest) \<Rightarrow>
             (if ps = ST_NORMAL then
                (if length (argv tok) + 1 \<ge> MAXARGS - 1
                 then Inr (ST_NORMAL, tok\<lparr>argv := argv tok @ [t]\<rparr>)
                 else parse_loop rest ST_NORMAL (tok\<lparr>argv := argv tok @ [t]\<rparr>))
              else if ps = ST_INFILE then
                (if length (argv tok) \<ge> MAXARGS - 1
                 then Inr (ST_NORMAL, tok\<lparr>infile := Some t\<rparr>)
                 else parse_loop rest ST_NORMAL (tok\<lparr>infile := Some t\<rparr>))
              else if ps = ST_OUTFILE then
                (if length (argv tok) \<ge> MAXARGS - 1
                 then Inr (ST_NORMAL, tok\<lparr>outfile := Some t\<rparr>)
                 else parse_loop rest ST_NORMAL (tok\<lparr>outfile := Some t\<rparr>))
              else Inl ''Error: Ambiguous I/O redirection\<newline>'')))"
  by pat_completeness auto
termination
proof (relation "measure (\<lambda>(buf, ps, tok). length buf)")
  show "wf (measure (\<lambda>(buf, ps, tok). length buf))" by simp
next
  fix buf :: string and ps :: int and tok :: cmdline_tokens
  assume "dropWhile is_delim buf \<noteq> []"
  then have "length (tl (dropWhile is_delim buf)) < length buf"
    using length_dropWhile_le [of is_delim buf] by (cases "dropWhile is_delim buf") auto
  then show "((tl (dropWhile is_delim buf), or ps ST_INFILE, tok), buf, ps, tok)
      \<in> measure (\<lambda>(buf, ps, tok). length buf)"
    and "((tl (dropWhile is_delim buf), or ps ST_OUTFILE, tok), buf, ps, tok)
      \<in> measure (\<lambda>(buf, ps, tok). length buf)"
    by simp_all
next
  fix buf :: string and ps :: int and tok :: cmdline_tokens and x2 t rest
  assume ne: "dropWhile is_delim buf \<noteq> []"
    and nt: "next_token (dropWhile is_delim buf) = Some x2" and x2: "(t, rest) = x2"
  let ?b = "dropWhile is_delim buf"
  have tail: "length (dropWhile P (tl ?b)) < length ?b" for P
    using ne length_dropWhile_le [of P "tl ?b"] by (cases ?b) auto
  have "length rest < length ?b"
  proof (cases "is_quote (hd ?b)")
    case True
    with nt x2 have "rest = drop 1 (dropWhile (\<lambda>c. c \<noteq> hd ?b) (tl ?b))"
      by (auto simp: next_token_def split: if_splits)
    with tail [of "\<lambda>c. c \<noteq> hd ?b"] show ?thesis by simp
  next
    case False
    with nt x2 have r: "rest = drop 1 (dropWhile (\<lambda>c. \<not> is_delim c) ?b)"
      by (auto simp: next_token_def)
    show ?thesis
    proof (cases "dropWhile (\<lambda>c. \<not> is_delim c) ?b")
      case Nil
      with r ne show ?thesis by simp
    next
      case (Cons y ys)
      with r length_dropWhile_le [of "\<lambda>c. \<not> is_delim c" ?b] show ?thesis by simp
    qed
  qed
  with length_dropWhile_le [of is_delim buf] have lt: "length rest < length buf" by simp
  then show "((rest, ST_NORMAL, tok\<lparr>argv := argv tok @ [t]\<rparr>), buf, ps, tok)
      \<in> measure (\<lambda>(buf, ps, tok). length buf)"
    and "((rest, ST_NORMAL, tok\<lparr>infile := Some t\<rparr>), buf, ps, tok)
      \<in> measure (\<lambda>(buf, ps, tok). length buf)"
    and "((rest, ST_NORMAL, tok\<lparr>outfile := Some t\<rparr>), buf, ps, tok)
      \<in> measure (\<lambda>(buf, ps, tok). length buf)"
    by simp_all
qed

declare parse_loop.simps [simp del]

definition classify :: "string \<Rightarrow> builtins_t" where
  "classify a =
     (if a = ''quit'' then BUILTIN_QUIT
      else if a = ''jobs'' then BUILTIN_JOBS
      else if a = ''bg'' then BUILTIN_BG
      else if a = ''fg'' then BUILTIN_FG
      else BUILTIN_NONE)"

text \<open>
  \<^verbatim>\<open>parseline\<close>: \<open>Inl\<close> is the return value -1 with the message printed, \<open>Inr (is_bg, tok)\<close>
  the return values 1 and 0. The test \<^verbatim>\<open>*tok->argv[tok->argc-1] == '&'\<close> reads the first
  character of the last argument (the terminating NUL when the argument is empty).
  On a blank line the C code leaves \<^verbatim>\<open>tok->builtins\<close> unset; \<^verbatim>\<open>eval\<close> never reads it then.
  The command line is a C string: shorter than \<^verbatim>\<open>MAXLINE\<close> and free of NUL characters.
\<close>

definition parseline :: "string \<Rightarrow> string + (bool \<times> cmdline_tokens)" where
  "parseline cl =
     (case parse_loop cl ST_NORMAL
             \<lparr>argv = [], infile = None, outfile = None, builtins = BUILTIN_NONE\<rparr> of
        Inl msg \<Rightarrow> Inl msg
      | Inr (ps, tok) \<Rightarrow>
          (if ps \<noteq> ST_NORMAL
           then Inl ''Error: must provide file name for redirection\<newline>''
           else if argv tok = [] then Inr (True, tok)
           else
             (if last (argv tok) \<noteq> [] \<and> hd (last (argv tok)) = CHR ''&''
              then Inr (True, tok\<lparr>argv := butlast (argv tok),
                                   builtins := classify (hd (argv tok))\<rparr>)
              else Inr (False, tok\<lparr>builtins := classify (hd (argv tok))\<rparr>))))"

section \<open>The environment of one evaluation\<close>

text \<open>
  What the operating system and the C library hand back is a parameter of the model:
  \<^item> \<open>fork_ret\<close>: the value \<^verbatim>\<open>fork\<close> returns in this process;
  \<^item> \<open>kill_ret\<close>: the value \<^verbatim>\<open>kill\<close> returns, the same for every call of the evaluation;
  \<^item> \<open>write_ret\<close>: the value \<^verbatim>\<open>write\<close> returns in \<^verbatim>\<open>listjobs\<close>, the same for every call;
  \<^item> \<open>strerror\<close>: the text \<^verbatim>\<open>strerror(errno)\<close> gives \<^verbatim>\<open>unix_error\<close>;
  \<^item> \<open>garbage\<close>: the indeterminate value of the local \<^verbatim>\<open>int pid\<close> of \<^verbatim>\<open>execbg\<close>/\<^verbatim>\<open>execfg\<close>,
    which \<^verbatim>\<open>sscanf\<close> leaves untouched when the \<^verbatim>\<open>%d\<close> conversion fails;
  \<^item> \<open>pending\<close>: the signals delivered, one per \<^verbatim>\<open>Sigsuspend\<close>, while \<^verbatim>\<open>eval\<close> waits.
  A \<^verbatim>\<open>SIGCHLD\<close> delivery carries the results of the successive \<^verbatim>\<open>waitpid\<close> calls of its
  handler; the list ending stands for \<^verbatim>\<open>waitpid\<close> returning 0 or -1.
  The descriptor calls \<^verbatim>\<open>dup\<close>, \<^verbatim>\<open>open\<close> and \<^verbatim>\<open>dup2\<close>, whose results the code does not look at,
  and the signal mask calls, which do not fail on the arguments they are given
  (\<^verbatim>\<open>sigsuspend\<close> always returns with \<^verbatim>\<open>EINTR\<close>), have no effect on the state modelled here
  and are left out; the mask is modelled in the section on the foreground wait.
\<close>

datatype wstatus = WEXITED int | WSIGNALED int | WSTOPPED int | WCONTINUED

datatype delivery = Chld "(int \<times> wstatus) list" | Intr | Tstp | Quit

record env =
  fork_ret :: int
  kill_ret :: int
  write_ret :: int
  strerror :: string
  garbage :: int
  pending :: "delivery list"

text \<open>
  A process exit is \<open>Inl (code, s)\<close> with the final state; \<open>Inr\<close> is a normal return.
\<close>

definition unix_error :: "env \<Rightarrow> shell \<Rightarrow> string \<Rightarrow> int \<times> shell" where
  "unix_error e s msg = (1, s\<lparr>out := out s @ [msg @ '': '' @ strerror e @ ''\<newline>'']\<rparr>)"

definition Kill :: "env \<Rightarrow> shell \<Rightarrow> int \<Rightarrow> signal \<Rightarrow> (int \<times> shell) + shell" where
  "Kill e s p sg =
     (if kill_ret e < 0 then Inl (unix_error e (s\<lparr>sys := sys s @ [Sys_kill p sg]\<rparr>) ''Kill error'')
      else Inr (s\<lparr>sys := sys s @ [Sys_kill p sg]\<rparr>))"

text \<open>
  \<^verbatim>\<open>listjobs\<close> writes three pieces for every occupied slot and exits with code 1 at the
  first \<^verbatim>\<open>write\<close> that fails.
\<close>

definition listjobs :: "env \<Rightarrow> shell \<Rightarrow> (int \<times> shell) + shell" where
  "listjobs e s =
     (if write_ret e < 0 \<and> listjobs_lines 0 (job_list s) \<noteq> []
      then Inl (1, s\<lparr>out := out s @ [''Error writing to output file\<newline>'']\<rparr>)
      else Inr (s\<lparr>out := out s @ listjobs_lines 0 (job_list s)\<rparr>))"

subsection \<open>sscanf with the formats %d and %c%d\<close>

text \<open>
  The \<^verbatim>\<open>%d\<close> conversion of the C library: white space is skipped, then an optional sign and
  at least one decimal digit are read. A value outside the range of \<^verbatim>\<open>int\<close> is undefined
  behaviour in C and outside this model.
\<close>

definition isspace :: "char \<Rightarrow> bool" where
  "isspace c = (c \<in> set [CHR '' '', CHR 0x09, CHR 0x0A, CHR 0x0B, CHR 0x0C, CHR 0x0D])"

definition digit_val :: "char \<Rightarrow> nat option" where
  "digit_val c = map_of (zip ''0123456789'' [0, 1, 2, 3, 4, 5, 6, 7, 8, 9]) c"

fun scan_digits :: "nat \<Rightarrow> string \<Rightarrow> nat" where
  "scan_digits acc [] = acc"
| "scan_digits acc (c # cs) =
     (case digit_val c of None \<Rightarrow> acc | Some d \<Rightarrow> scan_digits (10 * acc + d) cs)"

definition unsigned_d :: "string \<Rightarrow> nat option" where
  "unsigned_d t =
     (case t of [] \<Rightarrow> None
      | c # cs \<Rightarrow> (if digit_val c = None then None else Some (scan_digits 0 t)))"

definition conv_d :: "string \<Rightarrow> int option" where
  "conv_d inp =
     (case dropWhile isspace inp of
        [] \<Rightarrow> None
      | c # cs \<Rightarrow>
          (if c = CHR ''-'' then map_option (\<lambda>n. - int n) (unsigned_d cs)
           else if c = CHR ''+'' then map_option int (unsigned_d cs)
           else map_option int (unsigned_d (c # cs))))"

definition sscanf_d :: "string \<Rightarrow> int option" where
  "sscanf_d inp = conv_d inp"

text \<open>\<open>Some (s, jid)\<close> is the return value 2, the only one the callers tell apart.\<close>

definition sscanf_cd :: "string \<Rightarrow> (char \<times> int) option" where
  "sscanf_cd inp =
     (case inp of [] \<Rightarrow> None
      | c # cs \<Rightarrow> (case conv_d cs of None \<Rightarrow> None | Some j \<Rightarrow> Some (c, j)))"

section \<open>The built-in commands\<close>

definition ack_line :: "int \<Rightarrow> int \<Rightarrow> string \<Rightarrow> string" where
  "ack_line j p cl = ''['' @ fmt_d j @ ''] ('' @ fmt_d p @ '') '' @ cl @ '' \<newline>''"

definition set_state :: "job_t list \<Rightarrow> nat \<Rightarrow> jstate \<Rightarrow> job_t list" where
  "set_state jl i st = jl[i := (jl ! i)\<lparr>state := st\<rparr>]"

definition execbg :: "env \<Rightarrow> shell \<Rightarrow> cmdline_tokens \<Rightarrow> (int \<times> shell) + (int \<times> shell)" where
  "execbg e s tok =
     (if argc tok = 2 then
        (let p = (case sscanf_d (argv tok ! 1) of Some v \<Rightarrow> v | None \<Rightarrow> garbage e) in
         case getjobpid (job_list s) p of
           Some i \<Rightarrow>
             (let s1 = s\<lparr>job_list := set_state (job_list s) i BG\<rparr>;
                  s2 = s1\<lparr>out := out s1 @
                         [ack_line (pid2jid (job_list s1) p) p (cmdline (job_list s1 ! i))]\<rparr>
              in (case Kill e s2 (- p) SIGCONT of Inl x \<Rightarrow> Inl x | Inr s3 \<Rightarrow> Inr (1, s3)))
         | None \<Rightarrow>
             (case sscanf_cd (argv tok ! 1) of
                None \<Rightarrow> Inr (0, s)
              | Some (c, j) \<Rightarrow>
                  (case getjobjid (job_list s) j of
                     None \<Rightarrow> Inr (0, s)
                   | Some i \<Rightarrow>
                       (let s1 = s\<lparr>job_list := set_state (job_list s) i BG\<rparr>;
                            s2 = s1\<lparr>out := out s1 @
                                   [ack_line j (pid (job_list s1 ! i)) (cmdline (job_list s1 ! i))]\<rparr>
                        in (case Kill e s2 (- pid (job_list s2 ! i)) SIGCONT of
                              Inl x \<Rightarrow> Inl x | Inr s3 \<Rightarrow> Inr (1, s3))))))
      else Inr (0, s))"

text \<open>
  \<^verbatim>\<open>execfg\<close> passes the pid itself to \<^verbatim>\<open>Kill\<close> in its first branch and to the bare \<^verbatim>\<open>kill\<close>,
  whose result is not looked at, in its second.
\<close>

definition execfg :: "env \<Rightarrow> shell \<Rightarrow> cmdline_tokens \<Rightarrow> (int \<times> shell) + (int \<times> shell)" where
  "execfg e s tok =
     (if argc tok = 2 then
        (let p = (case sscanf_d (argv tok ! 1) of Some v \<Rightarrow> v | None \<Rightarrow> garbage e) in
         case getjobpid (job_list s) p of
           Some i \<Rightarrow>
             (let s1 = s\<lparr>job_list := set_state (job_list s) i FG\<rparr>
              in (case Kill e s1 p SIGCONT of Inl x \<Rightarrow> Inl x | Inr s2 \<Rightarrow> Inr (1, s2)))
         | None \<Rightarrow>
             (case sscanf_cd (argv tok ! 1) of
                None \<Rightarrow> Inr (0, s)
              | Some (c, j) \<Rightarrow>
                  (case getjobjid (job_list s) j of
                     None \<Rightarrow> Inr (0, s)
                   | Some i \<Rightarrow>
                       (let s1 = s\<lparr>job_list := set_state (job_list s) i FG\<rparr>
                        in Inr (1, s1\<lparr>sys := sys s1 @
                                         [Sys_kill (pid (job_list s1 ! i)) SIGCONT]\<rparr>)))))
      else Inr (0, s))"

text \<open>
  \<^verbatim>\<open>builtin_command\<close> is only called by \<^verbatim>\<open>eval\<close>, after \<^verbatim>\<open>argv[0] != NULL\<close> has been checked.
\<close>

definition builtin_command :: "env \<Rightarrow> shell \<Rightarrow> cmdline_tokens \<Rightarrow> (int \<times> shell) + (int \<times> shell)" where
  "builtin_command e s tok =
     (case builtins tok of
        BUILTIN_QUIT \<Rightarrow> Inl (0, s)
      | BUILTIN_JOBS \<Rightarrow> (case listjobs e s of Inl x \<Rightarrow> Inl x | Inr s' \<Rightarrow> Inr (1, s'))
      | BUILTIN_BG \<Rightarrow> execbg e s tok
      | BUILTIN_FG \<Rightarrow> execfg e s tok
      | BUILTIN_NONE \<Rightarrow> (if hd (argv tok) = ''&'' then Inr (1, s) else Inr (0, s)))"

section \<open>The signal handlers\<close>

text \<open>
  The number \<^verbatim>\<open>SIGCONT\<close> printed by the verbose message of the child-status handler
  is that of Linux on x86.
\<close>

definition SIGCONT_number :: int where
  "SIGCONT_number = 18"

definition job_tag :: "shell \<Rightarrow> int \<Rightarrow> string" where
  "job_tag s p = ''Job ['' @ fmt_d (pid2jid (job_list s) p) @ ''] ('' @ fmt_d p @ '')''"

definition say :: "shell \<Rightarrow> string \<Rightarrow> shell" where
  "say s msg = s\<lparr>out := out s @ [msg]\<rparr>"

definition say_verbose :: "shell \<Rightarrow> string \<Rightarrow> shell" where
  "say_verbose s msg = (if verbose s then say s msg else s)"

text \<open>
  The body of the \<^verbatim>\<open>while\<close> loop of \<^verbatim>\<open>sigchld_handler\<close> for one result \<^verbatim>\<open>(pid, status)\<close> of
  \<^verbatim>\<open>waitpid\<close>; the four status tests exclude one another.
\<close>

definition reap :: "shell \<Rightarrow> int \<Rightarrow> wstatus \<Rightarrow> shell" where
  "reap s p ws =
     (let s0 = say_verbose s (''sigchld_handler: '' @ job_tag s p @ '' in handler \<newline>'') in
      case ws of
        WEXITED c \<Rightarrow>
          snd (deletejob
                 (if verbose s0
                  then say (say s0 ''sigchld_handler: '')
                         (job_tag s0 p @ '' terminates OK (status '' @ fmt_d c @ '')\<newline>'')
                  else s0) p)
      | WSIGNALED sg \<Rightarrow>
          snd (deletejob
                 (say s0 (job_tag s0 p @ '' terminated by signal '' @ fmt_d sg @ ''\<newline>'')) p)
      | WSTOPPED sg \<Rightarrow>
          snd (stopjob
                 (say s0 (job_tag s0 p @ '' stopped by signal '' @ fmt_d sg @ ''\<newline>'')) p)
      | WCONTINUED \<Rightarrow>
          say_verbose s0
            (job_tag s0 p @ '' restarted by signal '' @ fmt_d SIGCONT_number @ ''\<newline>''))"

fun sigchld_loop :: "shell \<Rightarrow> (int \<times> wstatus) list \<Rightarrow> shell" where
  "sigchld_loop s [] = s"
| "sigchld_loop s ((p, ws) # rest) = (if p > 0 then sigchld_loop (reap s p ws) rest else s)"

definition sigchld_handler :: "shell \<Rightarrow> (int \<times> wstatus) list \<Rightarrow> shell" where
  "sigchld_handler s reaps =
     say_verbose (sigchld_loop (say_verbose s ''sigchld_handler: entering\<newline>'') reaps)
       ''sigchld_handler: exiting\<newline>''"

definition sigint_handler :: "env \<Rightarrow> shell \<Rightarrow> (int \<times> shell) + shell" where
  "sigint_handler e s =
     (let s0 = say_verbose s ''sigint_handler: entering\<newline>'' in
      if fgpid (job_list s0) > 0 then
        (case Kill e s0 (- fgpid (job_list s0)) SIGINT of
           Inl x \<Rightarrow> Inl x
         | Inr s1 \<Rightarrow>
             Inr (say_verbose
                    (say_verbose s1
                       (''sigint_handler: '' @ job_tag s1 (fgpid (job_list s0)) @ '' killed \<newline>''))
                    ''sigint_handler: exiting\<newline>''))
      else Inr (say_verbose s0 ''sigint_handler: exiting\<newline>''))"

definition sigtstp_handler :: "env \<Rightarrow> shell \<Rightarrow> (int \<times> shell) + shell" where
  "sigtstp_handler e s =
     (let s0 = say_verbose s ''sigtstp_handler: entering\<newline>'' in
      if fgpid (job_list s0) > 0 then
        (case Kill e s0 (- fgpid (job_list s0)) SIGTSTP of
           Inl x \<Rightarrow> Inl x
         | Inr s1 \<Rightarrow>
             Inr (say_verbose
                    (say_verbose s1
                       (''sigtstp_handler: '' @ job_tag s1 (fgpid (job_list s0)) @ '' stopped \<newline>''))
                    ''sigtstp_handler: entering\<newline>''))
      else Inr (say_verbose s0 ''sigtstp_handler: entering\<newline>''))"

definition sigquit_handler :: "shell \<Rightarrow> int \<times> shell" where
  "sigquit_handler s =
     (1, say (say_verbose s ''sigquit_handler: entering\<newline>'')
           ''Terminating after receipt of SIGQUIT signal\<newline>'')"

definition deliver :: "env \<Rightarrow> shell \<Rightarrow> delivery \<Rightarrow> (int \<times> shell) + shell" where
  "deliver e s d =
     (case d of
        Chld reaps \<Rightarrow> Inr (sigchld_handler s reaps)
      | Intr \<Rightarrow> sigint_handler e s
      | Tstp \<Rightarrow> sigtstp_handler e s
      | Quit \<Rightarrow> Inl (sigquit_handler s))"

section \<open>The evaluator\<close>

text \<open>
  What \<^verbatim>\<open>eval\<close> comes to in the shell process:
  \<^item> \<open>Returned s ds\<close>: it returns to the read loop of \<^verbatim>\<open>main\<close> in state \<open>s\<close>, with the
    deliveries \<open>ds\<close> of the environment not consumed;
  \<^item> \<open>Exited c s\<close>: the process exits with code \<open>c\<close>;
  \<^item> \<open>Blocked s\<close>: it sleeps in \<^verbatim>\<open>Sigsuspend\<close> and the environment has no signal left;
  \<^item> \<open>Child\<close>: this process is the forked child, which never returns from \<^verbatim>\<open>eval\<close>: it
    becomes the program or exits with code 1.
\<close>

datatype outcome = Returned shell "delivery list" | Exited int shell | Blocked shell | Child

text \<open>The loop \<^verbatim>\<open>while (fgpid(job_list)) Sigsuspend(&prev);\<close>\<close>

fun wait_fg :: "env \<Rightarrow> shell \<Rightarrow> delivery list \<Rightarrow> outcome" where
  "wait_fg e s [] = (if fgpid (job_list s) \<noteq> 0 then Blocked s else Returned s [])"
| "wait_fg e s (d # ds) =
     (if fgpid (job_list s) \<noteq> 0
      then (case deliver e s d of Inl (c, s') \<Rightarrow> Exited c s' | Inr s' \<Rightarrow> wait_fg e s' ds)
      else Returned s (d # ds))"

definition eval :: "env \<Rightarrow> shell \<Rightarrow> string \<Rightarrow> outcome" where
  "eval e s cl =
     (case parseline cl of
        Inl msg \<Rightarrow> Returned (say s msg) (pending e)
      | Inr (bg, tok) \<Rightarrow>
          (if argv tok = [] then Returned s (pending e)
           else
             (case builtin_command e s tok of
                Inl (c, s') \<Rightarrow> Exited c s'
              | Inr (r, s1) \<Rightarrow>
                  (if r = 0 then
                     (if fork_ret e < 0
                      then (case unix_error e s1 ''Fork error'' of (c, s') \<Rightarrow> Exited c s')
                      else if fork_ret e = 0 then Child
                      else
                        (let s2 = snd (addjob (s1\<lparr>sys := sys s1 @ [Sys_fork (fork_ret e)]\<rparr>)
                                         (fork_ret e) (if bg then BG else FG) cl)
                         in if \<not> bg then wait_fg e s2 (pending e)
                            else Returned
                                   (say s2 (ack_line (pid2jid (job_list s2) (fork_ret e))
                                              (fork_ret e) cl))
                                   (pending e)))
                   else Returned s1 (pending e)))))"

subsection \<open>Runs of the shell\<close>

text \<open>
  A run of the read loop: command lines evaluated one after the other, and signals
  delivered while the shell waits for the next line. \<open>None\<close>: the shell has exited, or
  sleeps for ever.
\<close>

datatype action = Line env string | Sig env delivery

fun run :: "shell \<Rightarrow> action list \<Rightarrow> shell option" where
  "run s [] = Some s"
| "run s (Line e cl # acts) =
     (case eval e s cl of Returned s' ds \<Rightarrow> run s' acts | _ \<Rightarrow> None)"
| "run s (Sig e d # acts) =
     (case deliver e s d of Inr s' \<Rightarrow> run s' acts | Inl x \<Rightarrow> None)"

definition count_fg :: "job_t list \<Rightarrow> nat" where
  "count_fg jl = length (filter (\<lambda>j. state j = FG) jl)"

section \<open>The foreground wait, statement by statement\<close>

text \<open>
  The parent's path through lines 296 to 302 of \<^verbatim>\<open>eval\<close> for a foreground command, one
  statement per step, with the signal mask and the asynchronous delivery of \<^verbatim>\<open>SIGCHLD\<close>:
  \<^item> \<open>At_addjob\<close>: before \<^verbatim>\<open>addjob(job_list, pid, state, cmdline)\<close>, the mask blocked;
  \<^item> \<open>At_restore\<close>: before \<^verbatim>\<open>Sigprocmask(SIG_SETMASK, &prev, NULL)\<close>;
  \<^item> \<open>At_check\<close>: before the test \<^verbatim>\<open>fgpid(job_list)\<close> of the \<^verbatim>\<open>while\<close>;
  \<^item> \<open>At_suspend\<close>: before \<^verbatim>\<open>Sigsuspend(&prev)\<close>;
  \<^item> \<open>At_done\<close>: the loop is left.
  \<open>unreaped\<close> are the children whose status has changed and that no \<^verbatim>\<open>waitpid\<close> has
  returned yet; \<^verbatim>\<open>SIGCHLD\<close> is pending exactly when there is one.
\<close>

datatype pc = At_addjob | At_restore | At_check | At_suspend | At_done

record config =
  at :: pc
  blocked :: bool
  unreaped :: "(int \<times> wstatus) list"
  sh :: shell

text \<open>
  The events of a schedule:
  \<^item> \<open>Child_event p ws\<close>: the kernel records that child \<open>p\<close> changed status;
  \<^item> \<open>Interrupt\<close>: \<^verbatim>\<open>SIGCHLD\<close> is pending and not blocked, and its handler runs between two
    statements of \<^verbatim>\<open>eval\<close>;
  \<^item> \<open>Stmt\<close>: \<^verbatim>\<open>eval\<close> executes the statement it is at. \<^verbatim>\<open>Sigsuspend(&prev)\<close> installs the
    mask \<^verbatim>\<open>prev\<close>, sleeps until a handler has run and puts the mask back; with nothing to
    deliver it does not return.
  \<open>None\<close>: the event cannot happen in this configuration.
\<close>

datatype event = Child_event int wstatus | Interrupt | Stmt

definition exec :: "int \<Rightarrow> string \<Rightarrow> config \<Rightarrow> event \<Rightarrow> config option" where
  "exec p cl c ev =
     (case ev of
        Child_event q ws \<Rightarrow> Some (c\<lparr>unreaped := unreaped c @ [(q, ws)]\<rparr>)
      | Interrupt \<Rightarrow>
          (if \<not> blocked c \<and> unreaped c \<noteq> []
           then Some (c\<lparr>sh := sigchld_handler (sh c) (unreaped c), unreaped := []\<rparr>)
           else None)
      | Stmt \<Rightarrow>
          (case at c of
             At_addjob \<Rightarrow> Some (c\<lparr>at := At_restore, sh := snd (addjob (sh c) p FG cl)\<rparr>)
           | At_restore \<Rightarrow> Some (c\<lparr>at := At_check, blocked := False\<rparr>)
           | At_check \<Rightarrow>
               Some (c\<lparr>at := (if fgpid (job_list (sh c)) \<noteq> 0 then At_suspend else At_done)\<rparr>)
           | At_suspend \<Rightarrow>
               (if unreaped c \<noteq> []
                then Some (c\<lparr>at := At_check,
                            sh := sigchld_handler (sh c) (unreaped c), unreaped := []\<rparr>)
                else None)
           | At_done \<Rightarrow> None))"

fun execs :: "int \<Rightarrow> string \<Rightarrow> config \<Rightarrow> event list \<Rightarrow> config option" where
  "execs p cl c [] = Some c"
| "execs p cl c (ev # evs) =
     (case exec p cl c ev of None \<Rightarrow> None | Some c' \<Rightarrow> execs p cl c' evs)"

section \<open>Notions used by the properties\<close>

text \<open>
  The occupied slots; the shape every table built by \<^verbatim>\<open>addjob\<close> and \<^verbatim>\<open>clearjob\<close> has (a free
  slot carries job id 0, an occupied one a job id of at least 1); a table with no free
  slot.
\<close>

definition tracked :: "job_t list \<Rightarrow> job_t list" where
  "tracked jl = filter (\<lambda>j. pid j \<noteq> 0) jl"

definition wf_jobs :: "job_t list \<Rightarrow> bool" where
  "wf_jobs jl = list_all (\<lambda>j. if pid j = 0 then jid j = 0 else 1 \<le> jid j) jl"

definition table_full :: "job_t list \<Rightarrow> bool" where
  "table_full jl = list_all (\<lambda>j. pid j \<noteq> 0) jl"

text \<open>Sample states: the table after two background jobs were added.\<close>

definition two_jobs :: shell where
  "two_jobs =
     snd (addjob (snd (addjob init_shell 7 BG ''/bin/a &'')) 8 BG ''/bin/b &'')"

text \<open>No two occupied slots hold the same pid.\<close>

definition distinct_pids :: "job_t list \<Rightarrow> bool" where
  "distinct_pids jl = distinct (map pid (tracked jl))"

text \<open>The loop body of the child-status handler applied to every result in turn.\<close>

definition reap_all :: "shell \<Rightarrow> (int \<times> wstatus) list \<Rightarrow> shell" where
  "reap_all s reaps = fold (\<lambda>(q, ws) s'. reap s' q ws) reaps s"

text \<open>\<^verbatim>\<open>WIFEXITED(status) || WIFSIGNALED(status)\<close>\<close>

fun terminated :: "wstatus \<Rightarrow> bool" where
  "terminated (WEXITED c) = True"
| "terminated (WSIGNALED sg) = True"
| "terminated (WSTOPPED sg) = False"
| "terminated WCONTINUED = False"

text \<open>
  An environment in which \<^verbatim>\<open>fork\<close> returns \<open>p\<close>, \<^verbatim>\<open>kill\<close> succeeds and no signal arrives, and
  the job ids that pids have after a run from the initial state.
\<close>

definition env_fork :: "int \<Rightarrow> env" where
  "env_fork p =
     \<lparr>fork_ret = p, kill_ret = 0, write_ret = 0, strerror = [], garbage = 0, pending = []\<rparr>"

definition jids_after :: "action list \<Rightarrow> int list \<Rightarrow> int list option" where
  "jids_after acts ps =
     (case run init_shell acts of None \<Rightarrow> None
      | Some s \<Rightarrow> Some (map (pid2jid (job_list s)) ps))"

text \<open>
  Sixteen background commands fill the table (jobs 1 to 16); the children 1 and 2 exit
  and are reaped by one run of the handler; two more background commands follow.
\<close>

definition sixteen_bg :: "action list" where
  "sixteen_bg = map (\<lambda>p. Line (env_fork p) ''/bin/s &'')
      [1, 2, 3, 4, 5, 6, 7, 8, 9, 10, 11, 12, 13, 14, 15, 16]"

definition wrap_run :: "action list" where
  "wrap_run = sixteen_bg @
     [Sig (env_fork 0) (Chld [(1, WEXITED 0), (2, WEXITED 0)]),
      Line (env_fork 17) ''/bin/s &'',
      Line (env_fork 18) ''/bin/s &'']"

text \<open>
  The value of the local \<^verbatim>\<open>pid\<close> of \<^verbatim>\<open>execbg\<close>/\<^verbatim>\<open>execfg\<close> after \<^verbatim>\<open>sscanf(argv[1], "%d", &pid)\<close>.
\<close>

definition target_pid :: "env \<Rightarrow> string \<Rightarrow> int" where
  "target_pid e arg = (case sscanf_d arg of Some v \<Rightarrow> v | None \<Rightarrow> garbage e)"

text \<open>The state a run from the initial state ends in, and the number of \<open>FG\<close> jobs there.\<close>

definition after :: "action list \<Rightarrow> shell" where
  "after acts = (case run init_shell acts of Some s \<Rightarrow> s | None \<Rightarrow> init_shell)"

definition fg_count_after :: "action list \<Rightarrow> nat option" where
  "fg_count_after acts =
     (case run init_shell acts of None \<Rightarrow> None | Some s \<Rightarrow> Some (count_fg (job_list s)))"

definition full_shell :: shell where
  "full_shell = after sixteen_bg"

definition too_many :: string where
  "too_many = ''Tried to create too many jobs\<newline>''"

text \<open>
  An environment in which the signals \<open>ds\<close> are on their way. In \<open>stop_run\<close> the command
  \<^verbatim>\<open>/bin/a\<close> runs in the foreground as process 7 and is stopped by signal 20, which ends the
  wait; in \<open>two_fg_run\<close> two background jobs are started and \<^verbatim>\<open>fg\<close> is typed for each.
\<close>

definition env_sig :: "delivery list \<Rightarrow> env" where
  "env_sig ds =
     \<lparr>fork_ret = 0, kill_ret = 0, write_ret = 0, strerror = [], garbage = 0, pending = ds\<rparr>"

definition stop_run :: "action list" where
  "stop_run = [Line ((env_fork 7)\<lparr>pending := [Chld [(7, WSTOPPED 20)]]\<rparr>) ''/bin/a'']"

definition two_fg_run :: "action list" where
  "two_fg_run =
     [Line (env_fork 7) ''/bin/a &'', Line (env_fork 8) ''/bin/b &'',
      Line (env_fork 0) ''fg 7'', Line (env_fork 0) ''fg 8'']"

text \<open>What an evaluation has printed, whatever it came to.\<close>

definition out_of :: "outcome \<Rightarrow> string list" where
  "out_of oc =
     (case oc of Returned s ds \<Rightarrow> out s | Exited c s \<Rightarrow> out s | Blocked s \<Rightarrow> out s
      | Child \<Rightarrow> [])"

text \<open>
  The acknowledgement line in the words of the specification: the command line is
  followed immediately by the line terminator.
\<close>

definition spec_ack_line :: "int \<Rightarrow> int \<Rightarrow> string \<Rightarrow> string" where
  "spec_ack_line j p cl = ''['' @ fmt_d j @ ''] ('' @ fmt_d p @ '') '' @ cl @ ''\<newline>''"

text \<open>The parent right after \<^verbatim>\<open>fork\<close>, at line 296, with the signals blocked at line 272.\<close>

definition start_config :: config where
  "start_config = \<lparr>at = At_addjob, blocked = True, unreaped = [], sh = init_shell\<rparr>"

text \<open>What every run of the shell keeps true of the table and the job id counter.\<close>

definition shell_inv :: "shell \<Rightarrow> bool" where
  "shell_inv s = (wf_jobs (job_list s) \<and> 1 \<le> nextjid s)"

section \<open>Facts about the job list helpers\<close>

lemma addjob_loop_None: "addjob_loop jl new = None \<longleftrightarrow> (\<forall>j\<in>set jl. pid j \<noteq> 0)"
  by (induction jl) (auto split: option.splits)

lemma addjob_loop_Some:
  "addjob_loop jl new = Some jl' \<Longrightarrow>
   \<exists>i<length jl. pid (jl ! i) = 0 \<and> (\<forall>k<i. pid (jl ! k) \<noteq> 0) \<and> jl' = jl[i := new]"
proof (induction jl arbitrary: jl')
  case Nil
  then show ?case by simp
next
  case (Cons j js)
  show ?case
  proof (cases "pid j = 0")
    case True
    with Cons.prems have "jl' = (j # js)[0 := new]" by simp
    with True show ?thesis by (intro exI [of _ 0]) simp
  next
    case False
    with Cons.prems obtain js' where a: "addjob_loop js new = Some js'" and b: "jl' = j # js'"
      by (auto split: option.splits)
    from Cons.IH [OF a] obtain i where i: "i < length js" "pid (js ! i) = 0"
      "\<forall>k<i. pid (js ! k) \<noteq> 0" "js' = js[i := new]" by blast
    have "\<forall>k<Suc i. pid ((j # js) ! k) \<noteq> 0"
      using False i(3) by (auto simp: nth_Cons split: nat.splits)
    with i b show ?thesis by (intro exI [of _ "Suc i"]) simp
  qed
qed

lemma deletejob_loop_None: "deletejob_loop jl p = None \<longleftrightarrow> (\<forall>j\<in>set jl. pid j \<noteq> p)"
  by (induction jl) (auto split: option.splits)

lemma deletejob_loop_Some:
  "deletejob_loop jl p = Some jl' \<Longrightarrow>
   \<exists>i<length jl. pid (jl ! i) = p \<and> (\<forall>k<i. pid (jl ! k) \<noteq> p) \<and> jl' = jl[i := clearjob (jl ! i)]"
proof (induction jl arbitrary: jl')
  case Nil
  then show ?case by simp
next
  case (Cons j js)
  show ?case
  proof (cases "pid j = p")
    case True
    with Cons.prems have "jl' = (j # js)[0 := clearjob j]" by simp
    with True show ?thesis by (intro exI [of _ 0]) simp
  next
    case False
    with Cons.prems obtain js' where a: "deletejob_loop js p = Some js'" and b: "jl' = j # js'"
      by (auto split: option.splits)
    from Cons.IH [OF a] obtain i where i: "i < length js" "pid (js ! i) = p"
      "\<forall>k<i. pid (js ! k) \<noteq> p" "js' = js[i := clearjob (js ! i)]" by blast
    have "\<forall>k<Suc i. pid ((j # js) ! k) \<noteq> p"
      using False i(3) by (auto simp: nth_Cons split: nat.splits)
    with i b show ?thesis by (intro exI [of _ "Suc i"]) simp
  qed
qed

lemma stopjob_loop_None: "stopjob_loop jl p = None \<longleftrightarrow> (\<forall>j\<in>set jl. pid j \<noteq> p)"
  by (induction jl) (auto split: option.splits)

lemma maxjid_loop_ge: "mx \<le> maxjid_loop mx jl \<and> (\<forall>j\<in>set jl. jid j \<le> maxjid_loop mx jl)"
proof (induction jl arbitrary: mx)
  case Nil
  then show ?case by simp
next
  case (Cons j js)
  from Cons.IH [of "if jid j > mx then jid j else mx"] show ?case
    by (auto split: if_splits)
qed

lemma maxjid_loop_mem: "maxjid_loop mx jl \<in> insert mx (jid ` set jl)"
proof (induction jl arbitrary: mx)
  case Nil
  then show ?case by simp
next
  case (Cons j js)
  from Cons.IH [of "if jid j > mx then jid j else mx"] show ?case
    by (auto split: if_splits)
qed

lemma maxjid_Max: "maxjid jl = Max (insert 0 (jid ` set jl))"
proof -
  have "Max (insert 0 (jid ` set jl)) = maxjid_loop 0 jl"
  proof (rule Max_eqI)
    show "finite (insert 0 (jid ` set jl))" by simp
    show "y \<le> maxjid_loop 0 jl" if "y \<in> insert 0 (jid ` set jl)" for y
      using that maxjid_loop_ge [of 0 jl] by auto
    show "maxjid_loop 0 jl \<in> insert 0 (jid ` set jl)" by (rule maxjid_loop_mem)
  qed
  then show ?thesis by (simp add: maxjid_def)
qed

lemma find_pid_None: "find_pid jl p = None \<longleftrightarrow> (\<forall>j\<in>set jl. pid j \<noteq> p)"
  by (induction jl) (auto split: option.splits)

lemma pid2jid_loop_absent: "\<forall>j\<in>set jl. pid j \<noteq> p \<Longrightarrow> pid2jid_loop jl p = 0"
  by (induction jl) auto

lemma Max_tracked:
  assumes "wf_jobs jl"
  shows "Max (insert 0 (jid ` set jl)) =
         (if tracked jl = [] then 0 else Max (jid ` set (tracked jl)))"
proof (cases "tracked jl = []")
  case True
  then have "\<forall>j\<in>set jl. pid j = 0"
    by (auto simp: tracked_def filter_empty_conv)
  with assms have "\<forall>j\<in>set jl. jid j = 0"
    by (auto simp: wf_jobs_def list_all_iff split: if_splits)
  then have "insert 0 (jid ` set jl) = {0}" by auto
  then have "Max (insert 0 (jid ` set jl)) = 0" by (simp only: Max_singleton)
  with True show ?thesis by simp
next
  case False
  let ?T = "jid ` set (tracked jl)"
  have fin: "finite ?T" and ne: "?T \<noteq> {}" using False by auto
  have pos: "\<forall>y\<in>?T. 1 \<le> y"
    using assms by (auto simp: wf_jobs_def list_all_iff tracked_def split: if_splits)
  have mem: "Max ?T \<in> ?T" using fin ne by (rule Max_in)
  have "Max (insert 0 (jid ` set jl)) = Max ?T"
  proof (rule Max_eqI)
    show "finite (insert 0 (jid ` set jl))" by simp
    show "y \<le> Max ?T" if y: "y \<in> insert 0 (jid ` set jl)" for y
    proof (cases "y \<in> ?T")
      case True
      then show ?thesis using fin by simp
    next
      case False
      with y assms have "y = 0"
        by (auto simp: wf_jobs_def list_all_iff tracked_def split: if_splits)
      with pos mem show ?thesis by force
    qed
    show "Max ?T \<in> insert 0 (jid ` set jl)"
      using mem by (auto simp: tracked_def)
  qed
  with False show ?thesis by simp
qed

lemma wf_jobs_clear:
  assumes "wf_jobs jl" "i < length jl"
  shows "wf_jobs (jl[i := clearjob (jl ! i)])"
  using assms
  by (auto simp: wf_jobs_def list_all_iff clearjob_def dest!: set_update_subset_insert [THEN subsetD])

lemma addjob_success:
  assumes "addjob s p st cl = (1, s')"
  shows "\<exists>i<length (job_list s). pid (job_list s ! i) = 0 \<and> (\<forall>k<i. pid (job_list s ! k) \<noteq> 0) \<and>
           s' = s\<lparr>job_list := (job_list s)[i := \<lparr>pid = p, jid = nextjid s, state = st, cmdline = cl\<rparr>],
                  nextjid := (if nextjid s < int MAXJOBS then nextjid s + 1 else 1),
                  out := out s @ (if verbose s
                      then [''Added job ['' @ fmt_d (nextjid s) @ ''] '' @ fmt_d p @ '' '' @ cl @
                            ''\<newline>'']
                      else [])\<rparr>"
proof -
  from assms obtain jl where jl: "addjob_loop (job_list s)
        \<lparr>pid = p, jid = nextjid s, state = st, cmdline = cl\<rparr> = Some jl"
    and s': "s' = s\<lparr>job_list := jl,
                   nextjid := (if nextjid s + 1 > int MAXJOBS then 1 else nextjid s + 1),
                   out := out s @ (if verbose s
                      then [''Added job ['' @ fmt_d (nextjid s) @ ''] '' @ fmt_d p @ '' '' @ cl @
                            ''\<newline>'']
                      else [])\<rparr>"
    by (auto simp: addjob_def split: if_splits option.splits)
  from addjob_loop_Some [OF jl] obtain i where "i < length (job_list s)"
    "pid (job_list s ! i) = 0" "\<forall>k<i. pid (job_list s ! k) \<noteq> 0"
    "jl = (job_list s)[i := \<lparr>pid = p, jid = nextjid s, state = st, cmdline = cl\<rparr>]" by blast
  moreover have "(if nextjid s + 1 > int MAXJOBS then 1 else nextjid s + 1) =
     (if nextjid s < int MAXJOBS then nextjid s + 1 else 1)" by auto
  ultimately show ?thesis using s' by (intro exI [of _ i]) simp
qed

lemma deletejob_success:
  assumes "deletejob s p = (1, s')"
  shows "\<exists>i<length (job_list s). pid (job_list s ! i) = p \<and> (\<forall>k<i. pid (job_list s ! k) \<noteq> p) \<and>
           s' = s\<lparr>job_list := (job_list s)[i := clearjob (job_list s ! i)],
                  nextjid := maxjid ((job_list s)[i := clearjob (job_list s ! i)]) + 1\<rparr>"
proof -
  from assms obtain jl where jl: "deletejob_loop (job_list s) p = Some jl"
    and s': "s' = s\<lparr>job_list := jl, nextjid := maxjid jl + 1\<rparr>"
    by (auto simp: deletejob_def split: if_splits option.splits)
  from deletejob_loop_Some [OF jl] s' show ?thesis by auto
qed

lemma two_jobs_eq:
  "two_jobs = \<lparr>job_list =
       \<lparr>pid = 7, jid = 1, state = BG, cmdline = ''/bin/a &''\<rparr> #
       \<lparr>pid = 8, jid = 2, state = BG, cmdline = ''/bin/b &''\<rparr> # replicate 14 empty_job,
     nextjid = 3, verbose = False, out = [], sys = []\<rparr>"
  by code_simp

lemma job_list_say [simp]: "job_list (say s m) = job_list s"
  by (simp add: say_def)

lemma job_list_say_verbose [simp]: "job_list (say_verbose s m) = job_list s"
  by (simp add: say_verbose_def)

lemma nextjid_say [simp]: "nextjid (say s m) = nextjid s"
  by (simp add: say_def)

lemma nextjid_say_verbose [simp]: "nextjid (say_verbose s m) = nextjid s"
  by (simp add: say_verbose_def)

lemma unique_pid_rest:
  assumes "distinct_pids (j # js)" "pid j = p" "p \<noteq> 0"
  shows "\<forall>x\<in>set js. pid x \<noteq> p"
proof
  fix x assume x: "x \<in> set js"
  from assms have "p \<notin> pid ` set (tracked js)"
    by (simp add: distinct_pids_def tracked_def)
  with x assms(3) show "pid x \<noteq> p"
    by (auto simp: tracked_def)
qed

lemma distinct_pids_tl: "distinct_pids (j # js) \<Longrightarrow> distinct_pids js"
  by (auto simp: distinct_pids_def tracked_def split: if_splits)

lemma deletejob_loop_map:
  assumes "distinct_pids jl" "p \<noteq> 0"
  shows "(case deletejob_loop jl p of None \<Rightarrow> jl | Some jl' \<Rightarrow> jl') =
         map (\<lambda>j. if pid j = p then clearjob j else j) jl"
  using assms
proof (induction jl)
  case Nil
  then show ?case by simp
next
  case (Cons j js)
  show ?case
  proof (cases "pid j = p")
    case True
    from unique_pid_rest [OF Cons.prems(1) True Cons.prems(2)]
    have "map (\<lambda>j. if pid j = p then clearjob j else j) js = js"
      by (simp add: map_idI)
    with True show ?thesis by simp
  next
    case False
    from Cons.IH [OF distinct_pids_tl [OF Cons.prems(1)] Cons.prems(2)] False
    show ?thesis by (simp split: option.splits)
  qed
qed

lemma stopjob_loop_map:
  assumes "distinct_pids jl" "p \<noteq> 0"
  shows "(case stopjob_loop jl p of None \<Rightarrow> jl | Some jl' \<Rightarrow> jl') =
         map (\<lambda>j. if pid j = p then j\<lparr>state := ST\<rparr> else j) jl"
  using assms
proof (induction jl)
  case Nil
  then show ?case by simp
next
  case (Cons j js)
  show ?case
  proof (cases "pid j = p")
    case True
    from unique_pid_rest [OF Cons.prems(1) True Cons.prems(2)]
    have "map (\<lambda>j. if pid j = p then j\<lparr>state := ST\<rparr> else j) js = js"
      by (simp add: map_idI)
    with True show ?thesis by simp
  next
    case False
    from Cons.IH [OF distinct_pids_tl [OF Cons.prems(1)] Cons.prems(2)] False
    show ?thesis by (simp split: option.splits)
  qed
qed

lemma job_list_deletejob:
  assumes "distinct_pids (job_list s)" "0 < p"
  shows "job_list (snd (deletejob s p)) =
         map (\<lambda>j. if pid j = p then clearjob j else j) (job_list s)"
proof -
  from assms(2) have "p \<noteq> 0" by simp
  from deletejob_loop_map [OF assms(1) this] assms(2) show ?thesis
    by (simp add: deletejob_def split: option.splits)
qed

lemma job_list_stopjob:
  assumes "distinct_pids (job_list s)" "0 < p"
  shows "job_list (snd (stopjob s p)) =
         map (\<lambda>j. if pid j = p then j\<lparr>state := ST\<rparr> else j) (job_list s)"
proof -
  from assms(2) have "p \<noteq> 0" by simp
  from stopjob_loop_map [OF assms(1) this] assms(2) show ?thesis
    by (simp add: stopjob_def split: option.splits)
qed

lemma reap_job_list:
  assumes "distinct_pids (job_list s)" "0 < p"
  shows "job_list (reap s p ws) =
     (case ws of
        WEXITED c \<Rightarrow> map (\<lambda>j. if pid j = p then clearjob j else j) (job_list s)
      | WSIGNALED sg \<Rightarrow> map (\<lambda>j. if pid j = p then clearjob j else j) (job_list s)
      | WSTOPPED sg \<Rightarrow> map (\<lambda>j. if pid j = p then j\<lparr>state := ST\<rparr> else j) (job_list s)
      | WCONTINUED \<Rightarrow> job_list s)"
  using assms
  by (cases ws) (simp_all add: reap_def Let_def job_list_deletejob job_list_stopjob)

lemma reap_distinct_pids:
  assumes "distinct_pids (job_list s)" "0 < p"
  shows "distinct_pids (job_list (reap s p ws))"
proof -
  have a: "tracked (map (\<lambda>j. if pid j = p then clearjob j else j) jl) =
           filter (\<lambda>j. pid j \<noteq> p) (tracked jl)" for jl
    by (induction jl) (auto simp: tracked_def clearjob_def)
  have b: "map pid (tracked (map (\<lambda>j. if pid j = p then j\<lparr>state := ST\<rparr> else j) jl)) =
           map pid (tracked jl)" for jl
    by (induction jl) (auto simp: tracked_def)
  have c: "distinct (map pid (filter (\<lambda>j. pid j \<noteq> p) xs))" if "distinct (map pid xs)" for xs
    using that by (simp add: distinct_map_filter)
  show ?thesis
    using assms(1) c [of "tracked (job_list s)"]
    by (cases ws) (simp_all add: reap_job_list [OF assms] distinct_pids_def a b)
qed

lemma reap_absent:
  assumes "distinct_pids (job_list s)" "0 < p" "0 < q" "\<forall>j\<in>set (job_list s). pid j \<noteq> q"
  shows "\<forall>j\<in>set (job_list (reap s p ws)). pid j \<noteq> q"
  using assms(3,4) by (cases ws) (auto simp: reap_job_list [OF assms(1,2)] clearjob_def)

lemma reap_removes:
  assumes "distinct_pids (job_list s)" "0 < p" "terminated ws"
  shows "\<forall>j\<in>set (job_list (reap s p ws)). pid j \<noteq> p"
  using assms(2,3) by (cases ws) (auto simp: reap_job_list [OF assms(1,2)] clearjob_def)

lemma reap_all_distinct:
  assumes "distinct_pids (job_list s)" "\<forall>(q, ws)\<in>set reaps. 0 < q"
  shows "distinct_pids (job_list (reap_all s reaps))"
  using assms
proof (induction reaps arbitrary: s)
  case Nil
  then show ?case by (simp add: reap_all_def)
next
  case (Cons r rs)
  obtain q ws where r: "r = (q, ws)" by (cases r)
  with Cons.prems have q: "0 < q" by simp
  from Cons.IH [of "reap s q ws"] reap_distinct_pids [OF Cons.prems(1) q] Cons.prems(2) r
  show ?case by (simp add: reap_all_def)
qed

lemma reap_all_absent:
  assumes "distinct_pids (job_list s)" "\<forall>(q, ws)\<in>set reaps. 0 < q" "0 < p"
    "\<forall>j\<in>set (job_list s). pid j \<noteq> p"
  shows "\<forall>j\<in>set (job_list (reap_all s reaps)). pid j \<noteq> p"
  using assms
proof (induction reaps arbitrary: s)
  case Nil
  then show ?case by (simp add: reap_all_def)
next
  case (Cons r rs)
  obtain q ws where r: "r = (q, ws)" by (cases r)
  with Cons.prems have q: "0 < q" by simp
  from Cons.IH [of "reap s q ws"] reap_distinct_pids [OF Cons.prems(1) q]
    reap_absent [OF Cons.prems(1) q Cons.prems(3,4)] Cons.prems(2,3) r
  show ?case by (simp add: reap_all_def)
qed

lemma reap_all_removes:
  assumes "distinct_pids (job_list s)" "\<forall>(q, ws)\<in>set reaps. 0 < q"
    "(p, ws) \<in> set reaps" "terminated ws"
  shows "\<forall>j\<in>set (job_list (reap_all s reaps)). pid j \<noteq> p"
  using assms
proof (induction reaps arbitrary: s)
  case Nil
  then show ?case by simp
next
  case (Cons r rs)
  obtain q w where r: "r = (q, w)" by (cases r)
  with Cons.prems have q: "0 < q" by simp
  from Cons.prems(2,3) have p: "0 < p" by auto
  have d: "distinct_pids (job_list (reap s q w))" by (rule reap_distinct_pids [OF Cons.prems(1) q])
  have rs: "\<forall>(q, ws)\<in>set rs. 0 < q" using Cons.prems(2) by simp
  have step: "reap_all s (r # rs) = reap_all (reap s q w) rs" by (simp add: reap_all_def r)
  show ?case
  proof (cases "(p, ws) \<in> set rs")
    case True
    from Cons.IH [OF d rs True Cons.prems(4)] step show ?thesis by simp
  next
    case False
    with Cons.prems(3) r have e: "q = p" "w = ws" by auto
    from reap_removes [OF Cons.prems(1) q] e Cons.prems(4)
    have "\<forall>j\<in>set (job_list (reap s q w)). pid j \<noteq> p" by simp
    from reap_all_absent [OF d rs p this] step show ?thesis by simp
  qed
qed

lemma sigchld_loop_all:
  "\<forall>(q, ws)\<in>set reaps. 0 < q \<Longrightarrow> sigchld_loop s reaps = reap_all s reaps"
  by (induction reaps arbitrary: s) (auto simp: reap_all_def)

lemma sigchld_loop_stop:
  "\<forall>(q, ws)\<in>set reaps. 0 < q \<Longrightarrow> p \<le> 0 \<Longrightarrow>
   sigchld_loop s (reaps @ (p, w) # rest) = reap_all s reaps"
  by (induction reaps arbitrary: s) (auto simp: reap_all_def)

lemma find_pid_absent: "\<forall>j\<in>set jl. pid j \<noteq> p \<Longrightarrow> find_pid jl p = None"
  by (simp add: find_pid_None)




lemma table_full_iff: "table_full jl \<longleftrightarrow> (\<forall>j\<in>set jl. pid j \<noteq> 0)"
  by (simp add: table_full_def list_all_iff)

lemma addjob_full:
  assumes "table_full (job_list s)" "1 \<le> p"
  shows "addjob s p st cl = (0, say s too_many)"
proof -
  from assms(1) have "addjob_loop (job_list s)
      \<lparr>pid = p, jid = nextjid s, state = st, cmdline = cl\<rparr> = None"
    by (simp add: addjob_loop_None table_full_iff)
  with assms(2) show ?thesis by (simp add: addjob_def say_def too_many_def)
qed

lemma addjob_not_full:
  assumes "\<not> table_full (job_list s)" "1 \<le> p"
  shows "fst (addjob s p st cl) = 1"
proof -
  from assms(1) have "addjob_loop (job_list s)
      \<lparr>pid = p, jid = nextjid s, state = st, cmdline = cl\<rparr> \<noteq> None"
    by (simp add: addjob_loop_None table_full_iff)
  with assms(2) show ?thesis by (auto simp: addjob_def)
qed

lemma addjob_quiet:
  assumes "\<not> verbose s" "\<not> table_full (job_list s)"
  shows "out (snd (addjob s p st cl)) = out s"
proof (cases "p < 1")
  case True
  then show ?thesis by (simp add: addjob_def)
next
  case False
  from assms(2) have "addjob_loop (job_list s)
      \<lparr>pid = p, jid = nextjid s, state = st, cmdline = cl\<rparr> \<noteq> None"
    by (simp add: addjob_loop_None table_full_iff)
  with False assms(1) show ?thesis by (auto simp: addjob_def)
qed

lemma full_shell_facts:
  "table_full (job_list full_shell)" "pid2jid (job_list full_shell) 99 = 0"
  "out full_shell = map (\<lambda>p. ack_line p p ''/bin/s &'') [1, 2, 3, 4, 5, 6, 7, 8, 9, 10, 11, 12, 13, 14, 15, 16]"
  by code_simp+

lemma parse_bg: "parseline ''/bin/s &'' =
   Inr (True, \<lparr>argv = [''/bin/s''], infile = None, outfile = None, builtins = BUILTIN_NONE\<rparr>)"
  by code_simp

lemma parse_fg: "parseline ''/bin/s'' =
   Inr (False, \<lparr>argv = [''/bin/s''], infile = None, outfile = None, builtins = BUILTIN_NONE\<rparr>)"
  by code_simp

text \<open>
  What the built-ins do with a target that a lookup finds, and what \<^verbatim>\<open>eval\<close> does after a
  built-in has returned non-zero: it returns at once to the read loop.
\<close>

lemma eval_after_builtin:
  assumes "parseline cl = Inr (bg, tok)" "argv tok \<noteq> []"
    "builtin_command e s tok = Inr (r, s1)" "r \<noteq> 0"
  shows "eval e s cl = Returned s1 (pending e)"
  using assms by (simp add: eval_def)

lemma execfg_by_pid:
  assumes "argc tok = 2" "getjobpid (job_list s) (target_pid e (argv tok ! 1)) = Some i"
    "0 \<le> kill_ret e"
  shows "execfg e s tok =
     Inr (1, s\<lparr>job_list := set_state (job_list s) i FG,
              sys := sys s @ [Sys_kill (target_pid e (argv tok ! 1)) SIGCONT]\<rparr>)"
  using assms by (simp add: execfg_def target_pid_def Kill_def Let_def)

lemma execfg_by_jid:
  assumes "argc tok = 2" "getjobpid (job_list s) (target_pid e (argv tok ! 1)) = None"
    "sscanf_cd (argv tok ! 1) = Some (c, j)" "getjobjid (job_list s) j = Some i"
  shows "execfg e s tok =
     Inr (1, s\<lparr>job_list := set_state (job_list s) i FG,
              sys := sys s @ [Sys_kill (pid (set_state (job_list s) i FG ! i)) SIGCONT]\<rparr>)"
  using assms by (simp add: execfg_def target_pid_def Let_def)

lemma execbg_by_pid:
  assumes "argc tok = 2" "getjobpid (job_list s) (target_pid e (argv tok ! 1)) = Some i"
    "0 \<le> kill_ret e"
  shows "execbg e s tok =
     Inr (1, s\<lparr>job_list := set_state (job_list s) i BG,
              out := out s @
                [ack_line (pid2jid (set_state (job_list s) i BG) (target_pid e (argv tok ! 1)))
                   (target_pid e (argv tok ! 1)) (cmdline (set_state (job_list s) i BG ! i))],
              sys := sys s @ [Sys_kill (- target_pid e (argv tok ! 1)) SIGCONT]\<rparr>)"
  using assms by (simp add: execbg_def target_pid_def Kill_def Let_def)

text \<open>The shape of the table is kept by every operation of the shell.\<close>

lemma wf_jobs_iff:
  "wf_jobs jl \<longleftrightarrow> (\<forall>j\<in>set jl. (pid j = 0 \<longrightarrow> jid j = 0) \<and> (pid j \<noteq> 0 \<longrightarrow> 1 \<le> jid j))"
  by (auto simp: wf_jobs_def list_all_iff split: if_splits)

lemma wf_jobs_Cons:
  "wf_jobs (j # js) \<longleftrightarrow> (if pid j = 0 then jid j = 0 else 1 \<le> jid j) \<and> wf_jobs js"
  by (simp add: wf_jobs_def)

lemma wf_addjob_loop:
  "addjob_loop jl new = Some jl' \<Longrightarrow> wf_jobs jl \<Longrightarrow> pid new \<noteq> 0 \<Longrightarrow> 1 \<le> jid new \<Longrightarrow> wf_jobs jl'"
  by (induction jl arbitrary: jl') (auto simp: wf_jobs_Cons split: if_splits option.splits)

lemma wf_deletejob_loop:
  "deletejob_loop jl p = Some jl' \<Longrightarrow> wf_jobs jl \<Longrightarrow> wf_jobs jl'"
  by (induction jl arbitrary: jl')
     (auto simp: wf_jobs_Cons clearjob_def split: if_splits option.splits)

lemma wf_stopjob_loop:
  "stopjob_loop jl p = Some jl' \<Longrightarrow> wf_jobs jl \<Longrightarrow> wf_jobs jl'"
  by (induction jl arbitrary: jl') (auto simp: wf_jobs_Cons split: if_splits option.splits)

lemma wf_set_state: "wf_jobs jl \<Longrightarrow> wf_jobs (set_state jl i st)"
proof (cases "i < length jl")
  case True
  assume w: "wf_jobs jl"
  have "set (jl[i := (jl ! i)\<lparr>state := st\<rparr>]) \<subseteq> insert ((jl ! i)\<lparr>state := st\<rparr>) (set jl)"
    by (rule set_update_subset_insert)
  moreover from True have "jl ! i \<in> set jl" by simp
  ultimately show ?thesis using w by (auto simp: wf_jobs_iff set_state_def)
next
  case False
  assume "wf_jobs jl"
  with False show ?thesis by (simp add: set_state_def list_update_beyond)
qed

lemma maxjid_nonneg: "0 \<le> maxjid jl"
  using maxjid_loop_ge [of 0 jl] by (simp add: maxjid_def)

lemma inv_say [simp]: "shell_inv (say s m) = shell_inv s"
  by (simp add: shell_inv_def)

lemma inv_say_verbose [simp]: "shell_inv (say_verbose s m) = shell_inv s"
  by (simp add: shell_inv_def)

lemma inv_addjob: "shell_inv s \<Longrightarrow> shell_inv (snd (addjob s p st cl))"
  by (auto simp: addjob_def shell_inv_def split: option.splits intro: wf_addjob_loop)

lemma inv_deletejob: "shell_inv s \<Longrightarrow> shell_inv (snd (deletejob s p))"
  using maxjid_nonneg
  by (auto simp: deletejob_def shell_inv_def add_nonneg_pos split: option.splits
      intro: wf_deletejob_loop)

lemma inv_stopjob: "shell_inv s \<Longrightarrow> shell_inv (snd (stopjob s p))"
  by (auto simp: stopjob_def shell_inv_def split: option.splits intro: wf_stopjob_loop)

lemma inv_reap: "shell_inv s \<Longrightarrow> shell_inv (reap s p ws)"
  by (cases ws) (simp_all add: reap_def Let_def inv_deletejob inv_stopjob)

lemma inv_sigchld_loop: "shell_inv s \<Longrightarrow> shell_inv (sigchld_loop s reaps)"
  by (induction s reaps rule: sigchld_loop.induct) (simp_all add: inv_reap)

lemma inv_Kill: "Kill e s p sg = Inr s' \<Longrightarrow> shell_inv s \<Longrightarrow> shell_inv s'"
  by (auto simp: Kill_def shell_inv_def split: if_splits)

lemma inv_deliver: "deliver e s d = Inr s' \<Longrightarrow> shell_inv s \<Longrightarrow> shell_inv s'"
  by (cases d)
     (auto simp: deliver_def sigchld_handler_def sigint_handler_def sigtstp_handler_def Let_def
        inv_sigchld_loop split: if_splits sum.splits dest: inv_Kill)

lemma inv_set_state: "shell_inv s \<Longrightarrow> shell_inv (s\<lparr>job_list := set_state (job_list s) i st\<rparr>)"
  by (simp add: shell_inv_def wf_set_state)

lemma inv_execbg: "execbg e s tok = Inr (r, s') \<Longrightarrow> shell_inv s \<Longrightarrow> shell_inv s'"
  by (auto simp: execbg_def Let_def Kill_def shell_inv_def wf_set_state
      split: if_splits option.splits sum.splits prod.splits)

lemma inv_execfg: "execfg e s tok = Inr (r, s') \<Longrightarrow> shell_inv s \<Longrightarrow> shell_inv s'"
  by (auto simp: execfg_def Let_def Kill_def shell_inv_def wf_set_state
      split: if_splits option.splits sum.splits prod.splits)

lemma inv_builtin: "builtin_command e s tok = Inr (r, s') \<Longrightarrow> shell_inv s \<Longrightarrow> shell_inv s'"
  by (cases "builtins tok")
     (auto simp: builtin_command_def listjobs_def shell_inv_def
        split: if_splits sum.splits dest: inv_execbg inv_execfg)

lemma inv_wait_fg: "wait_fg e s ds = Returned s' ds' \<Longrightarrow> shell_inv s \<Longrightarrow> shell_inv s'"
  by (induction e s ds rule: wait_fg.induct)
     (auto split: if_splits sum.splits prod.splits dest: inv_deliver)

lemma inv_eval: "eval e s cl = Returned s' ds \<Longrightarrow> shell_inv s \<Longrightarrow> shell_inv s'"
proof -
  assume ev: "eval e s cl = Returned s' ds" and i: "shell_inv s"
  have fork: "shell_inv (s1\<lparr>sys := sys s1 @ [Sys_fork (fork_ret e)]\<rparr>)" if "shell_inv s1" for s1
    using that by (simp add: shell_inv_def)
  from ev i show ?thesis
    by (auto simp: eval_def Let_def unix_error_def
        split: sum.splits prod.splits if_splits
        dest!: inv_builtin inv_wait_fg intro!: inv_addjob fork)
qed

lemma inv_init: "shell_inv init_shell"
  by (simp add: shell_inv_def init_shell_def initjobs_def wf_jobs_iff clearjob_def)

lemma inv_run: "run s acts = Some s' \<Longrightarrow> shell_inv s \<Longrightarrow> shell_inv s'"
  by (induction s acts rule: run.induct)
     (auto split: outcome.splits sum.splits dest: inv_eval inv_deliver)

lemma reachable_wf_jobs: "run init_shell acts = Some s \<Longrightarrow> wf_jobs (job_list s) \<and> 1 \<le> nextjid s"
  using inv_run [OF _ inv_init] by (simp add: shell_inv_def)

section \<open>Claims\<close>

text \<open>
  C10. A pid below 1 is refused by every job-table operation that takes a pid: \<^verbatim>\<open>addjob\<close>
  and \<^verbatim>\<open>deletejob\<close> return 0 and leave the whole state as it was, \<^verbatim>\<open>getjobpid\<close> returns
  \<^verbatim>\<open>NULL\<close> and \<^verbatim>\<open>pid2jid\<close> returns 0. \<^verbatim>\<open>pid2jid\<close> also returns 0 for a positive pid that no
  slot of the table holds.
\<close>

theorem nonpositive_pid_benign:
  "(p < 1 \<longrightarrow>
      addjob s p st cl = (0, s) \<and> deletejob s p = (0, s) \<and>
      getjobpid (job_list s) p = None \<and> pid2jid (job_list s) p = 0) \<and>
   (1 \<le> p \<and> (\<forall>j\<in>set (job_list s). pid j \<noteq> p) \<longrightarrow> pid2jid (job_list s) p = 0)"
  by (simp add: addjob_def deletejob_def getjobpid_def pid2jid_def pid2jid_loop_absent)

theorem nonpositive_pid_benign_witness:
  "addjob two_jobs 0 FG ''/bin/ls'' = (0, two_jobs) \<and> deletejob two_jobs (- 3) = (0, two_jobs) \<and>
   getjobpid (job_list two_jobs) 0 = None \<and> pid2jid (job_list two_jobs) (- 3) = 0 \<and>
   pid2jid (job_list two_jobs) 5 = 0"
  using nonpositive_pid_benign [of 0 two_jobs FG "''/bin/ls''"]
    nonpositive_pid_benign [of "- 3" two_jobs]
    nonpositive_pid_benign [of 5 two_jobs]
  by (simp add: two_jobs_eq empty_job_def)

text \<open>
  C4 (amended). A successful \<^verbatim>\<open>addjob\<close> puts the new job, with job id \<^verbatim>\<open>nextjid\<close>, into a free
  slot, and the counter goes up by one as long as the id just assigned is below
  \<^verbatim>\<open>MAXJOBS\<close>; an add that assigns an id of \<^verbatim>\<open>MAXJOBS\<close> or more resets the counter to 1. So the
  ids of successive adds increase strictly until a removal occurs or the counter wraps.
  After a successful \<^verbatim>\<open>deletejob\<close> on a table whose free slots carry the job id 0 and
  whose occupied slots carry job ids of at least 1, the next id is the largest id among
  the occupied slots plus 1, or 1 when no slot is occupied. Every table that a run of the
  shell reaches from the initial state has this shape.
\<close>

theorem jid_allocation:
  "(addjob s p st cl = (1, s') \<longrightarrow>
      (\<exists>i<length (job_list s). pid (job_list s ! i) = 0 \<and>
         job_list s' = (job_list s)[i := \<lparr>pid = p, jid = nextjid s, state = st, cmdline = cl\<rparr>]) \<and>
      nextjid s' = (if nextjid s < int MAXJOBS then nextjid s + 1 else 1)) \<and>
   (wf_jobs (job_list s) \<and> deletejob s p = (1, s') \<longrightarrow>
      nextjid s' = (if tracked (job_list s') = [] then 1
                    else Max (jid ` set (tracked (job_list s'))) + 1)) \<and>
   (run init_shell acts = Some s \<longrightarrow> wf_jobs (job_list s))"
proof (intro conjI impI)
  assume a: "addjob s p st cl = (1, s')"
  from addjob_success [OF a]
  show "\<exists>i<length (job_list s). pid (job_list s ! i) = 0 \<and>
         job_list s' = (job_list s)[i := \<lparr>pid = p, jid = nextjid s, state = st, cmdline = cl\<rparr>]"
    by auto
  from addjob_success [OF a]
  show "nextjid s' = (if nextjid s < int MAXJOBS then nextjid s + 1 else 1)"
    by auto
next
  assume "wf_jobs (job_list s) \<and> deletejob s p = (1, s')"
  then have wf: "wf_jobs (job_list s)" and d: "deletejob s p = (1, s')" by simp_all
  from deletejob_success [OF d] obtain i where i: "i < length (job_list s)"
    and jl: "job_list s' = (job_list s)[i := clearjob (job_list s ! i)]"
    and nj: "nextjid s' = maxjid (job_list s') + 1" by auto
  from wf_jobs_clear [OF wf i] jl have "wf_jobs (job_list s')" by simp
  from Max_tracked [OF this] nj
  show "nextjid s' = (if tracked (job_list s') = [] then 1
                    else Max (jid ` set (tracked (job_list s'))) + 1)"
    by (simp add: maxjid_Max)
next
  assume "run init_shell acts = Some s"
  from reachable_wf_jobs [OF this] show "wf_jobs (job_list s)" by simp
qed


theorem jid_allocation_witness:
  "nextjid (snd (addjob two_jobs 9 BG ''/bin/c &'')) = 4 \<and>
   pid2jid (job_list (snd (addjob two_jobs 9 BG ''/bin/c &''))) 9 = 3 \<and>
   wf_jobs (job_list two_jobs) \<and> nextjid (snd (deletejob two_jobs 8)) = 2 \<and>
   wf_jobs (job_list (after stop_run))"
proof -
  have r: "run init_shell stop_run = Some (after stop_run)"
    by code_simp
  have a: "addjob two_jobs 9 BG ''/bin/c &'' = (1, snd (addjob two_jobs 9 BG ''/bin/c &''))"
    by code_simp
  have d: "deletejob two_jobs 8 = (1, snd (deletejob two_jobs 8))"
    by code_simp
  have w: "wf_jobs (job_list two_jobs)"
    by (simp add: two_jobs_eq empty_job_def wf_jobs_def list_all_iff)
  have t: "tracked (job_list (snd (deletejob two_jobs 8))) =
     [\<lparr>pid = 7, jid = 1, state = BG, cmdline = ''/bin/a &''\<rparr>]"
    by code_simp
  have n: "nextjid two_jobs = 3" by (simp add: two_jobs_eq)
  have j: "pid2jid (job_list (snd (addjob two_jobs 9 BG ''/bin/c &''))) 9 = 3" by code_simp
  from jid_allocation [of two_jobs 9 BG "''/bin/c &''" "snd (addjob two_jobs 9 BG ''/bin/c &'')"]
    jid_allocation [of two_jobs 8 BG "[]" "snd (deletejob two_jobs 8)"]
    jid_allocation [of "after stop_run" 1 BG "[]" "after stop_run" stop_run] a d w t n j r
  show ?thesis by (simp add: MAXJOBS_def)
qed

text \<open>
  The claim as stated fails: in \<open>wrap_run\<close> the last two commands are added one after the
  other with no removal between them, and they get the job ids 17 and 1.
\<close>

theorem jid_wrap_counterexample:
  "jids_after wrap_run [17, 18] = Some [17, 1]"
  by code_simp

text \<open>
  C7. One result \<^verbatim>\<open>(pid, status)\<close> of \<^verbatim>\<open>waitpid\<close> in the child-status handler, on a table
  whose occupied slots hold different pids: a child that exited or was killed by a
  signal has its slot cleared and no slot holds its pid afterwards; a stopped child has
  the state of its job set to \<open>ST\<close>; a continued child leaves the table and the job id
  counter as they were. The handler treats every result that \<^verbatim>\<open>waitpid\<close> returns with a
  positive pid, so that after it no slot holds the pid of any child reported as exited
  or killed, and it stops at the first result that is not positive.
\<close>

theorem sigchld_reaping:
  "distinct_pids (job_list s) \<and> 0 < p \<longrightarrow>
     (terminated ws \<longrightarrow>
        job_list (reap s p ws) = map (\<lambda>j. if pid j = p then clearjob j else j) (job_list s) \<and>
        getjobpid (job_list (reap s p ws)) p = None) \<and>
     job_list (reap s p (WSTOPPED sg)) =
        map (\<lambda>j. if pid j = p then j\<lparr>state := ST\<rparr> else j) (job_list s) \<and>
     job_list (reap s p WCONTINUED) = job_list s \<and>
     nextjid (reap s p WCONTINUED) = nextjid s \<and>
     ((\<forall>(q, w)\<in>set reaps. 0 < q) \<longrightarrow>
        (r \<le> 0 \<longrightarrow> sigchld_handler s (reaps @ (r, w') # rest) = sigchld_handler s reaps) \<and>
        job_list (sigchld_handler s reaps) = job_list (reap_all s reaps) \<and>
        (\<forall>(q, w)\<in>set reaps. terminated w \<longrightarrow>
           getjobpid (job_list (sigchld_handler s reaps)) q = None))"
proof (intro impI)
  assume "distinct_pids (job_list s) \<and> 0 < p"
  then have d: "distinct_pids (job_list s)" and p: "0 < p" by simp_all
  have 1: "terminated ws \<longrightarrow>
        job_list (reap s p ws) = map (\<lambda>j. if pid j = p then clearjob j else j) (job_list s) \<and>
        getjobpid (job_list (reap s p ws)) p = None"
  proof
    assume t: "terminated ws"
    then have "job_list (reap s p ws) = map (\<lambda>j. if pid j = p then clearjob j else j) (job_list s)"
      by (cases ws) (simp_all add: reap_job_list [OF d p])
    moreover from reap_removes [OF d p t] have "getjobpid (job_list (reap s p ws)) p = None"
      by (simp add: getjobpid_def find_pid_None)
    ultimately show "job_list (reap s p ws) =
        map (\<lambda>j. if pid j = p then clearjob j else j) (job_list s) \<and>
        getjobpid (job_list (reap s p ws)) p = None" by simp
  qed
  have 2: "job_list (reap s p (WSTOPPED sg)) =
        map (\<lambda>j. if pid j = p then j\<lparr>state := ST\<rparr> else j) (job_list s)"
    by (simp add: reap_job_list [OF d p])
  have 3: "job_list (reap s p WCONTINUED) = job_list s"
    by (simp add: reap_job_list [OF d p])
  have 4: "nextjid (reap s p WCONTINUED) = nextjid s"
    by (simp add: reap_def Let_def)
  have 5: "(\<forall>(q, w)\<in>set reaps. 0 < q) \<longrightarrow>
        (r \<le> 0 \<longrightarrow> sigchld_handler s (reaps @ (r, w') # rest) = sigchld_handler s reaps) \<and>
        job_list (sigchld_handler s reaps) = job_list (reap_all s reaps) \<and>
        (\<forall>(q, w)\<in>set reaps. terminated w \<longrightarrow>
           getjobpid (job_list (sigchld_handler s reaps)) q = None)"
  proof
    assume pos: "\<forall>(q, w)\<in>set reaps. 0 < q"
    let ?s0 = "say_verbose s ''sigchld_handler: entering\<newline>''"
    have d0: "distinct_pids (job_list ?s0)" using d by simp
    have jl: "job_list (sigchld_handler s reaps) = job_list (reap_all ?s0 reaps)"
      by (simp add: sigchld_handler_def sigchld_loop_all [OF pos])
    have same: "job_list (reap_all a reaps) = job_list (reap_all b reaps)"
      if "job_list a = job_list b" "distinct_pids (job_list a)" for a b
      using that pos
    proof (induction reaps arbitrary: a b)
      case Nil
      then show ?case by (simp add: reap_all_def)
    next
      case (Cons r rs)
      obtain q w where r: "r = (q, w)" by (cases r)
      with Cons.prems have q: "0 < q" by simp
      from Cons.prems have db: "distinct_pids (job_list b)" by simp
      have e: "job_list (reap a q w) = job_list (reap b q w)"
        by (simp only: reap_job_list [OF Cons.prems(2) q] reap_job_list [OF db q] Cons.prems(1))
      from Cons.IH [OF e reap_distinct_pids [OF Cons.prems(2) q]] Cons.prems(3) r
      show ?case by (simp add: reap_all_def)
    qed
    have stop: "r \<le> 0 \<longrightarrow> sigchld_handler s (reaps @ (r, w') # rest) = sigchld_handler s reaps"
      using sigchld_loop_stop [OF pos, of r] sigchld_loop_all [OF pos]
      by (simp add: sigchld_handler_def)
    have "job_list (sigchld_handler s reaps) = job_list (reap_all s reaps) \<and>
        (\<forall>(q, w)\<in>set reaps. terminated w \<longrightarrow>
           getjobpid (job_list (sigchld_handler s reaps)) q = None)"
    proof
      from same [of ?s0 s] d jl
      show e: "job_list (sigchld_handler s reaps) = job_list (reap_all s reaps)" by simp
      show "\<forall>(q, w)\<in>set reaps. terminated w \<longrightarrow>
           getjobpid (job_list (sigchld_handler s reaps)) q = None"
      proof (clarify)
        fix q w assume m: "(q, w) \<in> set reaps" and tw: "terminated w"
        from reap_all_removes [OF d pos m tw] e
        show "getjobpid (job_list (sigchld_handler s reaps)) q = None"
          by (simp add: getjobpid_def find_pid_None)
      qed
    qed
    with stop show "(r \<le> 0 \<longrightarrow>
          sigchld_handler s (reaps @ (r, w') # rest) = sigchld_handler s reaps) \<and>
        job_list (sigchld_handler s reaps) = job_list (reap_all s reaps) \<and>
        (\<forall>(q, w)\<in>set reaps. terminated w \<longrightarrow>
           getjobpid (job_list (sigchld_handler s reaps)) q = None)" by blast
  qed
  from 1 2 3 4 5 show "(terminated ws \<longrightarrow>
        job_list (reap s p ws) = map (\<lambda>j. if pid j = p then clearjob j else j) (job_list s) \<and>
        getjobpid (job_list (reap s p ws)) p = None) \<and>
     job_list (reap s p (WSTOPPED sg)) =
        map (\<lambda>j. if pid j = p then j\<lparr>state := ST\<rparr> else j) (job_list s) \<and>
     job_list (reap s p WCONTINUED) = job_list s \<and>
     nextjid (reap s p WCONTINUED) = nextjid s \<and>
     ((\<forall>(q, w)\<in>set reaps. 0 < q) \<longrightarrow>
        (r \<le> 0 \<longrightarrow> sigchld_handler s (reaps @ (r, w') # rest) = sigchld_handler s reaps) \<and>
        job_list (sigchld_handler s reaps) = job_list (reap_all s reaps) \<and>
        (\<forall>(q, w)\<in>set reaps. terminated w \<longrightarrow>
           getjobpid (job_list (sigchld_handler s reaps)) q = None))" by blast
qed

theorem sigchld_reaping_witness:
  "distinct_pids (job_list two_jobs) \<and>
   getjobpid (job_list (reap two_jobs 7 (WEXITED 0))) 7 = None \<and>
   job_list (reap two_jobs 7 (WSTOPPED 20)) =
     \<lparr>pid = 7, jid = 1, state = ST, cmdline = ''/bin/a &''\<rparr> #
     \<lparr>pid = 8, jid = 2, state = BG, cmdline = ''/bin/b &''\<rparr> # replicate 14 empty_job \<and>
   job_list (reap two_jobs 7 WCONTINUED) = job_list two_jobs \<and>
   getjobpid (job_list (sigchld_handler two_jobs [(7, WSTOPPED 20), (8, WSIGNALED 2)])) 8 = None"
proof -
  let ?reaps = "[(7, WSTOPPED 20), (8, WSIGNALED 2)] :: (int \<times> wstatus) list"
  have d: "distinct_pids (job_list two_jobs)"
    by (simp add: two_jobs_eq distinct_pids_def tracked_def empty_job_def)
  then have h: "distinct_pids (job_list two_jobs) \<and> (0::int) < 7" by simp
  note inst = sigchld_reaping [where s = two_jobs and p = 7 and ws = "WEXITED 0" and sg = 20
      and reaps = ?reaps and r = 0 and w' = WCONTINUED and rest = "[]", THEN mp, OF h]
  have t: "terminated (WEXITED 0)" by simp
  have pos: "\<forall>(q, w)\<in>set ?reaps. 0 < q" by simp
  have m: "map (\<lambda>j. if pid j = 7 then j\<lparr>state := ST\<rparr> else j) (job_list two_jobs) =
     \<lparr>pid = 7, jid = 1, state = ST, cmdline = ''/bin/a &''\<rparr> #
     \<lparr>pid = 8, jid = 2, state = BG, cmdline = ''/bin/b &''\<rparr> # replicate 14 empty_job"
    by (simp add: two_jobs_eq empty_job_def)
  from inst t have 1: "getjobpid (job_list (reap two_jobs 7 (WEXITED 0))) 7 = None" by blast
  from inst m have 2: "job_list (reap two_jobs 7 (WSTOPPED 20)) =
     \<lparr>pid = 7, jid = 1, state = ST, cmdline = ''/bin/a &''\<rparr> #
     \<lparr>pid = 8, jid = 2, state = BG, cmdline = ''/bin/b &''\<rparr> # replicate 14 empty_job"
    by (simp only:)
  from inst have 3: "job_list (reap two_jobs 7 WCONTINUED) = job_list two_jobs" by blast
  from inst pos have "\<forall>(q, w)\<in>set ?reaps. terminated w \<longrightarrow>
      getjobpid (job_list (sigchld_handler two_jobs ?reaps)) q = None" by blast
  then have 4: "getjobpid (job_list (sigchld_handler two_jobs ?reaps)) 8 = None" by simp
  from d 1 2 3 4 show ?thesis by blast
qed




text \<open>
  C6. \<^verbatim>\<open>addjob\<close> on a table with no free slot, for a positive pid: it returns 0, prints
  "Tried to create too many jobs" and leaves the table and the job id counter as they
  were. \<^verbatim>\<open>eval\<close> has forked the child before it calls \<^verbatim>\<open>addjob\<close> and carries on after the
  failure: for an external command on a full table the child is forked, no slot is
  written, the message is printed and \<^verbatim>\<open>eval\<close> goes on to the acknowledgement line or
  the foreground wait; the shell does not exit. When the table has a free slot and the
  pid is positive, \<^verbatim>\<open>addjob\<close> writes the job with job id \<^verbatim>\<open>nextjid\<close> into the first free slot
  and returns 1.
\<close>

theorem addjob_table_full:
  "(table_full (job_list s) \<and> 1 \<le> p \<longrightarrow> addjob s p st cl = (0, say s too_many)) \<and>
   (table_full (job_list s) \<and> parseline cl = Inr (bg, tok) \<and> argv tok \<noteq> [] \<and>
    builtins tok = BUILTIN_NONE \<and> hd (argv tok) \<noteq> ''&'' \<and> 1 \<le> fork_ret e \<longrightarrow>
      eval e s cl =
        (if bg
         then Returned
                (say (say (s\<lparr>sys := sys s @ [Sys_fork (fork_ret e)]\<rparr>) too_many)
                   (ack_line (pid2jid (job_list s) (fork_ret e)) (fork_ret e) cl))
                (pending e)
         else wait_fg e (say (s\<lparr>sys := sys s @ [Sys_fork (fork_ret e)]\<rparr>) too_many)
                (pending e))) \<and>
   (\<not> table_full (job_list s) \<and> 1 \<le> p \<longrightarrow>
      (\<exists>i<length (job_list s). pid (job_list s ! i) = 0 \<and> (\<forall>k<i. pid (job_list s ! k) \<noteq> 0) \<and>
         addjob s p st cl =
           (1, s\<lparr>job_list := (job_list s)[i := \<lparr>pid = p, jid = nextjid s, state = st, cmdline = cl\<rparr>],
                 nextjid := (if nextjid s < int MAXJOBS then nextjid s + 1 else 1),
                 out := out s @ (if verbose s
                      then [''Added job ['' @ fmt_d (nextjid s) @ ''] '' @ fmt_d p @ '' '' @ cl @
                            ''\<newline>'']
                      else [])\<rparr>)))"
proof (intro conjI impI)
  assume "table_full (job_list s) \<and> 1 \<le> p"
  then show "addjob s p st cl = (0, say s too_many)" by (simp add: addjob_full)
next
  assume a: "table_full (job_list s) \<and> parseline cl = Inr (bg, tok) \<and> argv tok \<noteq> [] \<and>
    builtins tok = BUILTIN_NONE \<and> hd (argv tok) \<noteq> ''&'' \<and> 1 \<le> fork_ret e"
  let ?s1 = "s\<lparr>sys := sys s @ [Sys_fork (fork_ret e)]\<rparr>"
  from a have full: "table_full (job_list ?s1)" and f: "1 \<le> fork_ret e" by simp_all
  from a have b: "builtin_command e s tok = Inr (0, s)" by (simp add: builtin_command_def)
  have add: "addjob ?s1 (fork_ret e) st' cl = (0, say ?s1 too_many)" for st'
    by (rule addjob_full [OF full f])
  from a b f show "eval e s cl =
        (if bg
         then Returned
                (say (say ?s1 too_many)
                   (ack_line (pid2jid (job_list s) (fork_ret e)) (fork_ret e) cl))
                (pending e)
         else wait_fg e (say ?s1 too_many) (pending e))"
    by (simp add: eval_def Let_def add)
next
  assume a: "\<not> table_full (job_list s) \<and> 1 \<le> p"
  then have "fst (addjob s p st cl) = 1" by (simp add: addjob_not_full)
  then have "addjob s p st cl = (1, snd (addjob s p st cl))" by (metis prod.collapse)
  from addjob_success [OF this]
  show "\<exists>i<length (job_list s). pid (job_list s ! i) = 0 \<and> (\<forall>k<i. pid (job_list s ! k) \<noteq> 0) \<and>
         addjob s p st cl =
           (1, s\<lparr>job_list := (job_list s)[i := \<lparr>pid = p, jid = nextjid s, state = st, cmdline = cl\<rparr>],
                 nextjid := (if nextjid s < int MAXJOBS then nextjid s + 1 else 1),
                 out := out s @ (if verbose s
                      then [''Added job ['' @ fmt_d (nextjid s) @ ''] '' @ fmt_d p @ '' '' @ cl @
                            ''\<newline>'']
                      else [])\<rparr>)"
    using \<open>addjob s p st cl = (1, snd (addjob s p st cl))\<close> by auto
qed

theorem addjob_table_full_witness:
  "table_full (job_list full_shell) \<and>
   addjob full_shell 99 BG ''/bin/s &'' = (0, say full_shell too_many) \<and>
   eval (env_fork 99) full_shell ''/bin/s &'' =
     Returned (say (say (full_shell\<lparr>sys := sys full_shell @ [Sys_fork 99]\<rparr>) too_many)
                 ''[0] (99) /bin/s & \<newline>'') [] \<and>
   eval (env_fork 99) full_shell ''/bin/s'' =
     Returned (say (full_shell\<lparr>sys := sys full_shell @ [Sys_fork 99]\<rparr>) too_many) [] \<and>
   fst (addjob two_jobs 9 FG ''/bin/c'') = 1"
proof -
  note f = full_shell_facts(1)
  have nf: "\<not> table_full (job_list two_jobs)"
    by (simp add: two_jobs_eq table_full_def empty_job_def list_all_iff)
  have ack: "ack_line 0 99 ''/bin/s &'' = ''[0] (99) /bin/s & \<newline>''" by code_simp
  have nofg: "fgpid (job_list full_shell) = 0" by code_simp
  from addjob_table_full [of full_shell 99 BG "''/bin/s &''"] f
  have 1: "addjob full_shell 99 BG ''/bin/s &'' = (0, say full_shell too_many)" by simp
  from addjob_table_full [of full_shell _ _ "''/bin/s &''" True
      "\<lparr>argv = [''/bin/s''], infile = None, outfile = None, builtins = BUILTIN_NONE\<rparr>" "env_fork 99"]
    f parse_bg full_shell_facts(2) ack
  have 2: "eval (env_fork 99) full_shell ''/bin/s &'' =
     Returned (say (say (full_shell\<lparr>sys := sys full_shell @ [Sys_fork 99]\<rparr>) too_many)
                 ''[0] (99) /bin/s & \<newline>'') []"
    by (simp add: env_fork_def)
  from addjob_table_full [of full_shell _ _ "''/bin/s''" False
      "\<lparr>argv = [''/bin/s''], infile = None, outfile = None, builtins = BUILTIN_NONE\<rparr>" "env_fork 99"]
    f parse_fg nofg
  have 3: "eval (env_fork 99) full_shell ''/bin/s'' =
     Returned (say (full_shell\<lparr>sys := sys full_shell @ [Sys_fork 99]\<rparr>) too_many) []"
    by (simp add: env_fork_def say_def)
  from addjob_table_full [of two_jobs 9 FG "''/bin/c''"] nf
  have 4: "fst (addjob two_jobs 9 FG ''/bin/c'') = 1" by auto
  from f 1 2 3 4 show ?thesis by simp
qed


text \<open>
  C8 (amended). For every external command with the background marker, \<^verbatim>\<open>eval\<close> prints, after
  \<^verbatim>\<open>addjob\<close>, exactly one acknowledgement line \<^verbatim>\<open>[<jobid>] (<pid>) <command line>\<close> followed
  by one space and the line terminator, and returns without consuming any signal
  delivery, that is without waiting; when the shell is not verbose and the table is not
  full this line is all that is printed.
\<close>

theorem bg_acknowledgement:
  "parseline cl = Inr (True, tok) \<and> argv tok \<noteq> [] \<and> builtins tok = BUILTIN_NONE \<and>
   hd (argv tok) \<noteq> ''&'' \<and> 1 \<le> fork_ret e \<longrightarrow>
     (let s2 = snd (addjob (s\<lparr>sys := sys s @ [Sys_fork (fork_ret e)]\<rparr>) (fork_ret e) BG cl)
      in eval e s cl =
           Returned
             (say s2 (''['' @ fmt_d (pid2jid (job_list s2) (fork_ret e)) @ ''] ('' @
                      fmt_d (fork_ret e) @ '') '' @ cl @ '' \<newline>''))
             (pending e) \<and>
         (\<not> verbose s \<and> \<not> table_full (job_list s) \<longrightarrow> out s2 = out s))"
proof
  assume a: "parseline cl = Inr (True, tok) \<and> argv tok \<noteq> [] \<and> builtins tok = BUILTIN_NONE \<and>
   hd (argv tok) \<noteq> ''&'' \<and> 1 \<le> fork_ret e"
  let ?s1 = "s\<lparr>sys := sys s @ [Sys_fork (fork_ret e)]\<rparr>"
  let ?s2 = "snd (addjob ?s1 (fork_ret e) BG cl)"
  from a have b: "builtin_command e s tok = Inr (0, s)" by (simp add: builtin_command_def)
  from a b have 1: "eval e s cl =
           Returned
             (say ?s2 (''['' @ fmt_d (pid2jid (job_list ?s2) (fork_ret e)) @ ''] ('' @
                      fmt_d (fork_ret e) @ '') '' @ cl @ '' \<newline>''))
             (pending e)"
    by (simp add: eval_def Let_def ack_line_def)
  have 2: "\<not> verbose s \<and> \<not> table_full (job_list s) \<longrightarrow> out ?s2 = out s"
    using addjob_quiet [of ?s1 "fork_ret e" BG cl] by simp
  from 1 2 show "let s2 = ?s2
      in eval e s cl =
           Returned
             (say s2 (''['' @ fmt_d (pid2jid (job_list s2) (fork_ret e)) @ ''] ('' @
                      fmt_d (fork_ret e) @ '') '' @ cl @ '' \<newline>''))
             (pending e) \<and>
         (\<not> verbose s \<and> \<not> table_full (job_list s) \<longrightarrow> out s2 = out s)"
    by (simp add: Let_def)
qed

theorem bg_acknowledgement_witness:
  "eval ((env_fork 9)\<lparr>pending := [Chld [(7, WEXITED 0)]]\<rparr>) two_jobs ''/bin/s &'' =
     Returned
       (two_jobs\<lparr>job_list :=
           \<lparr>pid = 7, jid = 1, state = BG, cmdline = ''/bin/a &''\<rparr> #
           \<lparr>pid = 8, jid = 2, state = BG, cmdline = ''/bin/b &''\<rparr> #
           \<lparr>pid = 9, jid = 3, state = BG, cmdline = ''/bin/s &''\<rparr> # replicate 13 empty_job,
          nextjid := 4, out := [''[3] (9) /bin/s & \<newline>''], sys := [Sys_fork 9]\<rparr>)
       [Chld [(7, WEXITED 0)]]"
proof -
  let ?e = "(env_fork 9)\<lparr>pending := [Chld [(7, WEXITED 0)]]\<rparr>"
  have h: "parseline ''/bin/s &'' = Inr (True, \<lparr>argv = [''/bin/s''], infile = None,
      outfile = None, builtins = BUILTIN_NONE\<rparr>) \<and>
    argv \<lparr>argv = [''/bin/s''], infile = None, outfile = None, builtins = BUILTIN_NONE\<rparr> \<noteq> [] \<and>
    builtins \<lparr>argv = [''/bin/s''], infile = None, outfile = None, builtins = BUILTIN_NONE\<rparr> =
      BUILTIN_NONE \<and>
    hd (argv \<lparr>argv = [''/bin/s''], infile = None, outfile = None, builtins = BUILTIN_NONE\<rparr>) \<noteq>
      ''&'' \<and> 1 \<le> fork_ret ?e"
    using parse_bg by (simp add: env_fork_def)
  have v: "say (snd (addjob (two_jobs\<lparr>sys := sys two_jobs @ [Sys_fork (fork_ret ?e)]\<rparr>)
                 (fork_ret ?e) BG ''/bin/s &''))
             (''['' @ fmt_d (pid2jid (job_list (snd (addjob
                  (two_jobs\<lparr>sys := sys two_jobs @ [Sys_fork (fork_ret ?e)]\<rparr>)
                  (fork_ret ?e) BG ''/bin/s &''))) (fork_ret ?e)) @ ''] ('' @
              fmt_d (fork_ret ?e) @ '') '' @ ''/bin/s &'' @ '' \<newline>'') =
     two_jobs\<lparr>job_list :=
           \<lparr>pid = 7, jid = 1, state = BG, cmdline = ''/bin/a &''\<rparr> #
           \<lparr>pid = 8, jid = 2, state = BG, cmdline = ''/bin/b &''\<rparr> #
           \<lparr>pid = 9, jid = 3, state = BG, cmdline = ''/bin/s &''\<rparr> # replicate 13 empty_job,
          nextjid := 4, out := [''[3] (9) /bin/s & \<newline>''], sys := [Sys_fork 9]\<rparr>"
    by code_simp
  have p: "pending ?e = [Chld [(7, WEXITED 0)]]" by simp
  from bg_acknowledgement [where cl = "''/bin/s &''" and e = ?e and s = two_jobs, THEN mp, OF h]
  show ?thesis unfolding Let_def v p by (rule conjunct1)
qed


text \<open>
  The claim as stated fails: the line printed for \<^verbatim>\<open>/bin/a &\<close> has a space between the
  command line and the line terminator.
\<close>

theorem ack_trailing_space_counterexample:
  "out_of (eval (env_fork 7) init_shell ''/bin/a &'') = [''[1] (7) /bin/a & \<newline>''] \<and>
   out_of (eval (env_fork 7) init_shell ''/bin/a &'') \<noteq> [spec_ack_line 1 7 ''/bin/a &'']"
  by code_simp

text \<open>
  C1. The code at a stopped job 1 with pid 7 and the line \<^verbatim>\<open>fg %1\<close>, while the exit of the
  child is on its way: the job is set to \<open>FG\<close>, the continue signal goes to the process 7
  and not to the process group -7, and \<^verbatim>\<open>eval\<close> returns with the job still in the
  foreground and the delivery not consumed: it has not waited. The same line with \<^verbatim>\<open>bg\<close>
  sends the signal to the group.
\<close>

theorem fg_signals_pid_and_returns:
  "eval (env_sig [Chld [(7, WEXITED 0)]]) (after stop_run) ''fg %1'' =
     Returned
       \<lparr>job_list = \<lparr>pid = 7, jid = 1, state = FG, cmdline = ''/bin/a''\<rparr> # replicate 15 empty_job,
        nextjid = 2, verbose = False, out = [''Job [1] (7) stopped by signal 20\<newline>''],
        sys = [Sys_fork 7, Sys_kill 7 SIGCONT]\<rparr>
       [Chld [(7, WEXITED 0)]] \<and>
   eval (env_sig [Chld [(7, WEXITED 0)]]) (after stop_run) ''bg %1'' =
     Returned
       \<lparr>job_list = \<lparr>pid = 7, jid = 1, state = BG, cmdline = ''/bin/a''\<rparr> # replicate 15 empty_job,
        nextjid = 2, verbose = False,
        out = [''Job [1] (7) stopped by signal 20\<newline>'', ''[1] (7) /bin/a \<newline>''],
        sys = [Sys_fork 7, Sys_kill (- 7) SIGCONT]\<rparr>
       [Chld [(7, WEXITED 0)]]"
  by code_simp

text \<open>
  C3. The code after two background commands and \<^verbatim>\<open>fg\<close> typed for each of them: two jobs
  are in state \<open>FG\<close>.
\<close>

theorem two_foreground_jobs:
  "fg_count_after two_fg_run = Some 2"
  by code_simp

text \<open>
  C5. The code at the line \<^verbatim>\<open>/bin/ls &x\<close>: the last token begins with an ampersand and has
  one more character; it is dropped and the request is marked background.
\<close>

theorem parseline_amp_prefix:
  "parseline ''/bin/ls &x'' =
     Inr (True, \<lparr>argv = [''/bin/ls''], infile = None, outfile = None, builtins = BUILTIN_NONE\<rparr>)"
  by code_simp

text \<open>
  C2. The code for a foreground command whose child 7 exits after the test of the wait
  loop and before \<^verbatim>\<open>Sigsuspend\<close>: the mask is already released when the loop tests
  \<^verbatim>\<open>fgpid\<close>; the handler runs between the test and the suspension and removes the job;
  \<^verbatim>\<open>eval\<close> then stands before \<^verbatim>\<open>Sigsuspend\<close> with no job in the foreground and nothing left
  to be delivered, and \<^verbatim>\<open>Sigsuspend\<close> does not return.
\<close>

theorem lost_wakeup:
  "execs 7 ''/bin/a'' start_config [Stmt, Stmt] =
     Some \<lparr>at = At_check, blocked = False, unreaped = [],
           sh = init_shell\<lparr>job_list :=
                  \<lparr>pid = 7, jid = 1, state = FG, cmdline = ''/bin/a''\<rparr> # replicate 15 empty_job,
                nextjid := 2\<rparr>\<rparr> \<and>
   execs 7 ''/bin/a'' start_config [Stmt, Stmt, Stmt, Child_event 7 (WEXITED 0), Interrupt] =
     Some \<lparr>at = At_suspend, blocked = False, unreaped = [], sh = init_shell\<rparr> \<and>
   fgpid (job_list init_shell) = 0 \<and>
   exec 7 ''/bin/a'' \<lparr>at = At_suspend, blocked = False, unreaped = [], sh = init_shell\<rparr> Stmt = None"
  by code_simp

end
